theory Spec2Isabelle
  imports Complex_Main
begin

section \<open>Data model\<close>

text \<open>
  Embedding of the scene layout and semantic-change code of
  \<^verbatim>\<open>image_generation/render_sc_images_drop.py\<close>.
  Python ints are modelled as \<open>int\<close>, lists as lists, dicts as association lists in
  insertion order. A Python float is a double: it is modelled by its value, a real number
  (infinities and NaN are not modelled), and the arithmetic on floats by the operations
  of the record \<open>arith\<close> below.
\<close>

type_synonym vec3 = "real \<times> real \<times> real"

text \<open>An entry \<open>(x, y, r)\<close> of the \<^verbatim>\<open>positions\<close> list: planar centre and radius.\<close>
type_synonym position = "real \<times> real \<times> real"

type_synonym rgba = "real \<times> real \<times> real \<times> real"

text \<open>The exceptions the modelled code can raise.\<close>
datatype error = IndexError | KeyError | ValueError | AssertionError

text \<open>The dict appended to \<^verbatim>\<open>objects\<close> (lines 748-756 and 935-943).\<close>
record scene_obj =
  shape :: string
  size_name :: string
  material :: string
  coords3d :: vec3
  rotation :: real
  pixel_coords :: "vec3 option"
  color :: string

text \<open>The part of \<^verbatim>\<open>scene_struct\<close> the modelled functions read.\<close>
record scene_struct =
  directions :: "(string \<times> vec3) list"
  objects :: "scene_obj list"

text \<open>The command-line arguments the modelled functions read.\<close>
record args =
  min_dist :: real
  margin :: real
  max_retries :: int
  min_pixels_per_object :: int

text \<open>
  What lines 658-671 (and 777-790) load from the property files:
  \<^verbatim>\<open>material_mapping\<close> and \<^verbatim>\<open>object_mapping\<close> hold pairs (asset name, output name),
  \<^verbatim>\<open>size_mapping\<close> pairs (size name, radius).
\<close>
record props =
  color_name_to_rgba :: "(string \<times> rgba) list"
  material_mapping :: "(string \<times> string) list"
  object_mapping :: "(string \<times> string) list"
  size_mapping :: "(string \<times> real) list"
  shape_color_combos :: "(string \<times> string list) list option"

text \<open>
  A Blender object, as far as the code determines it: the arguments of
  \<^verbatim>\<open>utils.add_object\<close> and \<^verbatim>\<open>utils.add_material\<close>.
\<close>
record blender_obj =
  b_name :: string
  b_scale :: real
  b_xy :: "real \<times> real"
  b_theta :: real
  b_material :: string
  b_rgba :: rgba

subsection \<open>Floating-point arithmetic\<close>

text \<open>
  The arithmetic of doubles rounds its results. How it rounds is not fixed here: the
  operations \<^verbatim>\<open>+\<close>, \<^verbatim>\<open>-\<close>, \<^verbatim>\<open>*\<close>, \<^verbatim>\<open>/\<close> on floats and \<^verbatim>\<open>math.sqrt\<close> are
  parameters of the model. Comparisons of doubles and the unary minus are exact, so they
  are the comparisons and the minus of the reals.
\<close>
record arith =
  fl_add :: "real \<Rightarrow> real \<Rightarrow> real"
  fl_sub :: "real \<Rightarrow> real \<Rightarrow> real"
  fl_mul :: "real \<Rightarrow> real \<Rightarrow> real"
  fl_div :: "real \<Rightarrow> real \<Rightarrow> real"
  fl_sqrt :: "real \<Rightarrow> real"

text \<open>
  The default \<^verbatim>\<open>eps=0.2\<close> of \<^verbatim>\<open>compute_all_relationships\<close>: the double nearest to
  \<open>0.2\<close>, which is \<open>3602879701896397 / 2^54\<close>.
\<close>
definition default_eps :: real where
  "default_eps = 3602879701896397 / 2 ^ 54"

subsection \<open>The random source\<close>

text \<open>
  The state of Python's global \<^verbatim>\<open>random\<close> module is threaded explicitly. It is an
  oracle: \<open>ints\<close> is the sequence of raw integer draws (reduced modulo the size of the
  range asked for), \<open>floats\<close> the sequence of results of \<^verbatim>\<open>random.random()\<close>;
  \<open>ipos\<close> and \<open>fpos\<close> count the draws made so far.
\<close>
record rng =
  ints :: "nat \<Rightarrow> nat"
  ipos :: nat
  floats :: "nat \<Rightarrow> real"
  fpos :: nat

definition randbelow :: "nat \<Rightarrow> rng \<Rightarrow> nat \<times> rng" where
  "randbelow n g = (ints g (ipos g) mod n, g\<lparr>ipos := Suc (ipos g)\<rparr>)"

definition random_random :: "rng \<Rightarrow> real \<times> rng" where
  "random_random g = (floats g (fpos g), g\<lparr>fpos := Suc (fpos g)\<rparr>)"

text \<open>
  \<^verbatim>\<open>random.uniform(a, b)\<close> is \<^verbatim>\<open>a + (b-a) * self.random()\<close>; the code calls it with
  the ints \<^verbatim>\<open>-3\<close> and \<^verbatim>\<open>3\<close>, so that \<^verbatim>\<open>b-a\<close> is computed on ints.
\<close>
definition uniform :: "arith \<Rightarrow> int \<Rightarrow> int \<Rightarrow> rng \<Rightarrow> real \<times> rng" where
  "uniform F a b g =
     (case random_random g of
        (u, g') \<Rightarrow> (fl_add F (of_int a) (fl_mul F (of_int (b - a)) u), g'))"

text \<open>\<^verbatim>\<open>random.choice(seq)\<close> raises IndexError on an empty sequence.\<close>
definition choice :: "'a list \<Rightarrow> rng \<Rightarrow> (error + 'a) \<times> rng" where
  "choice xs g =
     (if xs = [] then (Inl IndexError, g)
      else case randbelow (length xs) g of (k, g') \<Rightarrow> (Inr (xs ! k), g'))"

text \<open>\<^verbatim>\<open>random.randint(a, b)\<close> raises ValueError on an empty range.\<close>
definition randint :: "int \<Rightarrow> int \<Rightarrow> rng \<Rightarrow> (error + int) \<times> rng" where
  "randint a b g =
     (if b < a then (Inl ValueError, g)
      else case randbelow (nat (b - a + 1)) g of (k, g') \<Rightarrow> (Inr (a + int k), g'))"

subsection \<open>Exceptions and state\<close>

definition bind ::
  "('s \<Rightarrow> (error + 'a) \<times> 's) \<Rightarrow> ('a \<Rightarrow> 's \<Rightarrow> (error + 'b) \<times> 's) \<Rightarrow> 's \<Rightarrow> (error + 'b) \<times> 's"
where
  "bind m f s = (case m s of (Inl e, s') \<Rightarrow> (Inl e, s') | (Inr a, s') \<Rightarrow> f a s')"

definition ret :: "'a \<Rightarrow> 's \<Rightarrow> (error + 'a) \<times> 's" where
  "ret a s = (Inr a, s)"

definition lift :: "(error + 'a) \<Rightarrow> 's \<Rightarrow> (error + 'a) \<times> 's" where
  "lift r s = (r, s)"

text \<open>\<^verbatim>\<open>[k for k, v in xs if v == w][0]\<close>\<close>
definition first_key_of :: "('k \<times> 'v) list \<Rightarrow> 'v \<Rightarrow> error + 'k" where
  "first_key_of xs w =
     (case filter (\<lambda>(k, v). v = w) xs of [] \<Rightarrow> Inl IndexError | (k, v) # _ \<Rightarrow> Inr k)"

text \<open>\<^verbatim>\<open>[v for k, v in xs if k == w][0]\<close>\<close>
definition first_val_of :: "('k \<times> 'v) list \<Rightarrow> 'k \<Rightarrow> error + 'v" where
  "first_val_of xs w =
     (case filter (\<lambda>(k, v). k = w) xs of [] \<Rightarrow> Inl IndexError | (k, v) # _ \<Rightarrow> Inr v)"

text \<open>\<^verbatim>\<open>d[k]\<close> on a dict.\<close>
definition dict_get :: "('k \<times> 'v) list \<Rightarrow> 'k \<Rightarrow> error + 'v" where
  "dict_get d k = (case map_of d k of None \<Rightarrow> Inl KeyError | Some v \<Rightarrow> Inr v)"

section \<open>The six directions\<close>

definition neg3 :: "vec3 \<Rightarrow> vec3" where
  "neg3 v = (case v of (a, b, c) \<Rightarrow> (- a, - b, - c))"

text \<open>Lines 455-460 (and 593-598): the directions dict, in insertion order.\<close>
definition set_directions :: "vec3 \<Rightarrow> vec3 \<Rightarrow> vec3 \<Rightarrow> (string \<times> vec3) list" where
  "set_directions plane_behind plane_left plane_up =
     [(''behind'', plane_behind), (''front'', neg3 plane_behind),
      (''left'', plane_left), (''right'', neg3 plane_left),
      (''above'', plane_up), (''below'', neg3 plane_up)]"

section \<open>check_visibility\<close>

text \<open>
  \<^verbatim>\<open>(p[i], p[i+1], p[i+2], p[i+3]) for i in range(0, len(p), 4)\<close>: a buffer whose length
  is not a multiple of four makes an index go out of range.
\<close>
fun pixels4 :: "real list \<Rightarrow> error + rgba list" where
  "pixels4 [] = Inr []"
| "pixels4 (a # b # c # d # rest) =
     (case pixels4 rest of Inl e \<Rightarrow> Inl e | Inr cs \<Rightarrow> Inr ((a, b, c, d) # cs))"
| "pixels4 _ = Inl IndexError"

text \<open>\<^verbatim>\<open>collections.Counter\<close>: keys in first-seen order with their counts.\<close>
fun counter_add :: "'a \<Rightarrow> ('a \<times> nat) list \<Rightarrow> ('a \<times> nat) list" where
  "counter_add x [] = [(x, 1)]"
| "counter_add x ((k, n) # kns) =
     (if k = x then (k, Suc n) # kns else (k, n) # counter_add x kns)"

definition Counter :: "'a list \<Rightarrow> ('a \<times> nat) list" where
  "Counter xs = fold counter_add xs []"

text \<open>\<^verbatim>\<open>most_common()\<close>: the entries, by decreasing count (a stable sort).\<close>
definition most_common :: "('a \<times> nat) list \<Rightarrow> ('a \<times> nat) list" where
  "most_common kns = sort_key (\<lambda>kn. - int (snd kn)) kns"

text \<open>The loop of lines 1026-1028.\<close>
fun counts_ok :: "('a \<times> nat) list \<Rightarrow> int \<Rightarrow> bool" where
  "counts_ok [] m = True"
| "counts_ok ((k, n) # kns) m = (if int n < m then False else counts_ok kns m)"

text \<open>
  Lines 1020-1029 of \<^verbatim>\<open>check_visibility\<close>, on the pixel buffer \<open>p\<close> of the shadeless
  render and the number of Blender objects.
\<close>
definition check_pixels :: "real list \<Rightarrow> nat \<Rightarrow> int \<Rightarrow> error + bool" where
  "check_pixels p num_blender_objects min_pixels =
     (case pixels4 p of
        Inl e \<Rightarrow> Inl e
      | Inr cols \<Rightarrow>
          (let color_count = Counter cols in
           if length color_count \<noteq> num_blender_objects + 1 then Inr False
           else if \<not> counts_ok (most_common color_count) min_pixels then Inr False
           else Inr True))"

text \<open>
  The renderer is outside the repository. \<open>render_shadeless\<close> stands for lines 1018-1020:
  from the Blender objects and the random source (the flat colours are drawn from it) it
  gives the pixel buffer of the image written, and the random source afterwards.
  \<open>obj_location\<close> is the location of the object \<^verbatim>\<open>utils.add_object\<close> creates,
  \<open>get_camera_coords\<close> is \<^verbatim>\<open>utils.get_camera_coords\<close> for the scene's camera.
\<close>
record env =
  render_shadeless :: "blender_obj list \<Rightarrow> rng \<Rightarrow> real list \<times> rng"
  obj_location :: "string \<Rightarrow> real \<Rightarrow> real \<times> real \<Rightarrow> real \<Rightarrow> vec3"
  get_camera_coords :: "vec3 \<Rightarrow> vec3"

definition check_visibility ::
  "env \<Rightarrow> blender_obj list \<Rightarrow> int \<Rightarrow> rng \<Rightarrow> (error + bool) \<times> rng" where
  "check_visibility E blender_objects min_pixels g =
     (case render_shadeless E blender_objects g of
        (p, g') \<Rightarrow> (check_pixels p (length blender_objects) min_pixels, g'))"

section \<open>compute_all_relationships\<close>

text \<open>
  Line 999, \<^verbatim>\<open>sum(diff[k] * direction_vec[k] for k in [0, 1, 2])\<close>: \<^verbatim>\<open>sum\<close> starts
  from \<^verbatim>\<open>0\<close> and adds the items from left to right.
\<close>
definition dot3 :: "arith \<Rightarrow> vec3 \<Rightarrow> vec3 \<Rightarrow> real" where
  "dot3 F u v =
     (case u of (a, b, c) \<Rightarrow> case v of (d, e, f) \<Rightarrow>
        fl_add F (fl_add F (fl_add F 0 (fl_mul F a d)) (fl_mul F b e)) (fl_mul F c f))"

text \<open>Line 998, \<^verbatim>\<open>[coords2[k] - coords1[k] for k in [0, 1, 2]]\<close>.\<close>
definition diff3 :: "arith \<Rightarrow> vec3 \<Rightarrow> vec3 \<Rightarrow> vec3" where
  "diff3 F u v =
     (case u of (a, b, c) \<Rightarrow> case v of (d, e, f) \<Rightarrow>
        (fl_sub F a d, fl_sub F b e, fl_sub F c f))"

text \<open>One round of the loop over \<^verbatim>\<open>j, obj2\<close> (lines 995-1001); \<open>related\<close> is a set.\<close>
definition related_step ::
  "arith \<Rightarrow> scene_obj \<Rightarrow> vec3 \<Rightarrow> real \<Rightarrow> nat \<times> scene_obj \<Rightarrow> nat list \<Rightarrow> nat list" where
  "related_step F obj1 direction_vec eps jo related =
     (case jo of (j, obj2) \<Rightarrow>
        if obj1 = obj2 then related
        else if dot3 F (diff3 F (coords3d obj2) (coords3d obj1)) direction_vec > eps
             then List.insert j related
             else related)"

text \<open>Lines 993-1002: the sorted related list of one object.\<close>
definition related_of ::
  "arith \<Rightarrow> scene_obj list \<Rightarrow> vec3 \<Rightarrow> real \<Rightarrow> scene_obj \<Rightarrow> nat list" where
  "related_of F objs direction_vec eps obj1 =
     sort (fold (related_step F obj1 direction_vec eps) (enumerate 0 objs) [])"

text \<open>The loop over the directions dict (lines 989-1002).\<close>
fun relationships_loop ::
  "arith \<Rightarrow> (string \<times> vec3) list \<Rightarrow> scene_obj list \<Rightarrow> real
     \<Rightarrow> (string \<times> nat list list) list" where
  "relationships_loop F [] objs eps = []"
| "relationships_loop F ((name, direction_vec) # ds) objs eps =
     (if name = ''above'' \<or> name = ''below'' then relationships_loop F ds objs eps
      else (name, map (related_of F objs direction_vec eps) objs)
             # relationships_loop F ds objs eps)"

definition compute_all_relationships ::
  "arith \<Rightarrow> scene_struct \<Rightarrow> real \<Rightarrow> (string \<times> nat list list) list" where
  "compute_all_relationships F S eps = relationships_loop F (directions S) (objects S) eps"

section \<open>Distance and margin check\<close>

text \<open>
  The loop over the four direction names (lines 704-712 and 824-832). The result is
  \<^verbatim>\<open>margins_good\<close>; a direction missing from the dict raises KeyError, a direction with
  a non-zero third component fails the assertion.
\<close>
fun margins_loop ::
  "arith \<Rightarrow> (string \<times> vec3) list \<Rightarrow> real \<Rightarrow> real \<Rightarrow> real \<Rightarrow> string list
     \<Rightarrow> error + bool" where
  "margins_loop F dirs m dx dy [] = Inr True"
| "margins_loop F dirs m dx dy (direction_name # names) =
     (case dict_get dirs direction_name of
        Inl e \<Rightarrow> Inl e
      | Inr direction_vec \<Rightarrow>
          (case direction_vec of (v0, v1, v2) \<Rightarrow>
             if v2 \<noteq> 0 then Inl AssertionError
             else if 0 < fl_add F (fl_mul F dx v0) (fl_mul F dy v1)
                     \<and> fl_add F (fl_mul F dx v0) (fl_mul F dy v1) < m then Inr False
             else margins_loop F dirs m dx dy names))"

text \<open>
  \<^verbatim>\<open>check_dist_margin\<close> (lines 812-836); lines 696-716 of \<^verbatim>\<open>add_random_objects\<close> are the
  same loop written inline, with \<^verbatim>\<open>(x, y, r)\<close> for \<^verbatim>\<open>this_position\<close> and
  \<^verbatim>\<open>positions\<close> for \<^verbatim>\<open>other_positions\<close>. The result is
  \<^verbatim>\<open>dists_good and margins_good\<close>.
\<close>
fun check_dist_margin ::
  "arith \<Rightarrow> args \<Rightarrow> scene_struct \<Rightarrow> position \<Rightarrow> position list \<Rightarrow> error + bool" where
  "check_dist_margin F A S this_position [] = Inr True"
| "check_dist_margin F A S this_position (other # other_positions) =
     (case this_position of (x, y, r) \<Rightarrow>
      (case other of (xx, yy, rr) \<Rightarrow>
        if fl_sub F (fl_sub F
              (fl_sqrt F (fl_add F (fl_mul F (fl_sub F x xx) (fl_sub F x xx))
                                   (fl_mul F (fl_sub F y yy) (fl_sub F y yy)))) r) rr
             < min_dist A
        then Inr False
        else
          (case margins_loop F (directions S) (margin A) (fl_sub F x xx) (fl_sub F y yy)
                  [''left'', ''right'', ''front'', ''behind''] of
             Inl e \<Rightarrow> Inl e
           | Inr margins_good \<Rightarrow>
               if \<not> margins_good then Inr False
               else check_dist_margin F A S this_position other_positions)))"

text \<open>
  The \<^verbatim>\<open>while True\<close> loop of lines 683-717, and of lines 901-913: count the try, give up
  (\<open>None\<close>) once \<^verbatim>\<open>num_tries > args.max_retries\<close>, otherwise sample a position and
  test it against the positions given.
\<close>
function place_loop ::
  "arith \<Rightarrow> args \<Rightarrow> scene_struct \<Rightarrow> real \<Rightarrow> position list \<Rightarrow> int \<Rightarrow> rng
     \<Rightarrow> (error + (real \<times> real) option) \<times> rng" where
  "place_loop F A S r positions num_tries g =
     (if num_tries + 1 > max_retries A then (Inr None, g)
      else
        (case uniform F (- 3) 3 g of (x, g1) \<Rightarrow>
          (case uniform F (- 3) 3 g1 of (y, g2) \<Rightarrow>
            (case check_dist_margin F A S (x, y, r) positions of
               Inl e \<Rightarrow> (Inl e, g2)
             | Inr good \<Rightarrow>
                 if good then (Inr (Some (x, y)), g2)
                 else place_loop F A S r positions (num_tries + 1) g2))))"
  by pat_completeness auto
termination
  by (relation
        "measure (\<lambda>(F, A, S, r, positions, num_tries, g). nat (max_retries A - num_tries))")
     auto

declare place_loop.simps [simp del]

text \<open>Lines 719-727 and 915-923: the shape and the colour of a new object.\<close>
definition choose_shape_color ::
  "props \<Rightarrow> rng \<Rightarrow> (error + string \<times> string \<times> string \<times> rgba) \<times> rng" where
  "choose_shape_color P =
     (case shape_color_combos P of
        None \<Rightarrow>
          bind (choice (object_mapping P)) (\<lambda>(obj_name, obj_name_out).
          bind (choice (color_name_to_rgba P)) (\<lambda>(color_name, rgba).
          ret (obj_name, obj_name_out, color_name, rgba)))
      | Some combos \<Rightarrow>
          bind (choice combos) (\<lambda>(obj_name_out, color_choices).
          bind (choice color_choices) (\<lambda>color_name.
          bind (lift (first_key_of (object_mapping P) obj_name_out)) (\<lambda>obj_name.
          bind (lift (dict_get (color_name_to_rgba P) color_name)) (\<lambda>rgba.
          ret (obj_name, obj_name_out, color_name, rgba))))))"

text \<open>\<^verbatim>\<open>if obj_name == 'Cube': r /= math.sqrt(2)\<close>\<close>
definition cube_adjust :: "arith \<Rightarrow> string \<Rightarrow> real \<Rightarrow> real" where
  "cube_adjust F obj_name r =
     (if obj_name = ''Cube'' then fl_div F r (fl_sqrt F 2) else r)"

text \<open>\<^verbatim>\<open>360.0 * random.random()\<close>\<close>
definition random_theta :: "arith \<Rightarrow> rng \<Rightarrow> (error + real) \<times> rng" where
  "random_theta F g = (case random_random g of (u, g') \<Rightarrow> (Inr (fl_mul F 360 u), g'))"

section \<open>add_random_objects\<close>

text \<open>
  The three lists the function builds. Python returns \<open>placed\<close> (its \<^verbatim>\<open>objects\<close>) and
  \<open>blender_objects\<close>; \<open>positions\<close> is its local list of \<^verbatim>\<open>(x, y, r)\<close>.
\<close>
record layout =
  positions :: "position list"
  placed :: "scene_obj list"
  blender_objects :: "blender_obj list"




section \<open>apply_change\<close>

text \<open>
  The object dicts live in a store, so that copying and aliasing are visible: a reference
  is an index into the store, \<^verbatim>\<open>copy.deepcopy\<close> and a dict display allocate a new cell at
  the end, an item assignment updates a cell in place.
\<close>
type_synonym ref = nat
type_synonym store = "scene_obj list"

definition deepcopy :: "ref \<Rightarrow> store \<Rightarrow> ref \<times> store" where
  "deepcopy obj h = (length h, h @ [h ! obj])"

definition new_dict :: "scene_obj \<Rightarrow> store \<Rightarrow> ref \<times> store" where
  "new_dict d h = (length h, h @ [d])"

text \<open>Lines 847-850: draw a colour until it is not the current one.\<close>
partial_function (option) resample_color ::
  "(string \<times> rgba) list \<Rightarrow> string \<Rightarrow> rng \<Rightarrow> ((error + string) \<times> rng) option" where
  "resample_color items curr_color_name g =
     (case choice items g of
        (Inl e, g') \<Rightarrow> Some (Inl e, g')
      | (Inr new, g') \<Rightarrow>
          if fst new \<noteq> curr_color_name then Some (Inr (fst new), g')
          else resample_color items curr_color_name g')"

text \<open>Lines 861-864: draw a material until its asset name is not the current one.\<close>
partial_function (option) resample_material ::
  "(string \<times> string) list \<Rightarrow> string \<Rightarrow> rng \<Rightarrow> ((error + string) \<times> rng) option" where
  "resample_material mapping curr_mat_name g =
     (case choice mapping g of
        (Inl e, g') \<Rightarrow> Some (Inl e, g')
      | (Inr new, g') \<Rightarrow>
          if fst new \<noteq> curr_mat_name then Some (Inr (snd new), g')
          else resample_material mapping curr_mat_name g')"

text \<open>The loop of the \<^verbatim>\<open>'color'\<close> branch (lines 843-852).\<close>
fun color_loop ::
  "props \<Rightarrow> int \<Rightarrow> (nat \<times> ref) list \<Rightarrow> ref list \<Rightarrow> store \<Rightarrow> rng
     \<Rightarrow> ((error + ref list) \<times> store \<times> rng) option" where
  "color_loop P object_idx [] new_objects h g = Some (Inr new_objects, h, g)"
| "color_loop P object_idx ((i, obj) # rest) new_objects h g =
     (case deepcopy obj h of (new_obj, h1) \<Rightarrow>
        if int i = object_idx then
          (case resample_color (color_name_to_rgba P) (color (h1 ! new_obj)) g of
             None \<Rightarrow> None
           | Some (Inl e, g') \<Rightarrow> Some (Inl e, h1, g')
           | Some (Inr new_color_name, g') \<Rightarrow>
               color_loop P object_idx rest (new_objects @ [new_obj])
                 (h1[new_obj := (h1 ! new_obj)\<lparr>color := new_color_name\<rparr>]) g')
        else color_loop P object_idx rest (new_objects @ [new_obj]) h1 g)"

text \<open>The loop of the \<^verbatim>\<open>'material'\<close> branch (lines 856-866).\<close>
fun material_loop ::
  "props \<Rightarrow> int \<Rightarrow> (nat \<times> ref) list \<Rightarrow> ref list \<Rightarrow> store \<Rightarrow> rng
     \<Rightarrow> ((error + ref list) \<times> store \<times> rng) option" where
  "material_loop P object_idx [] new_objects h g = Some (Inr new_objects, h, g)"
| "material_loop P object_idx ((i, obj) # rest) new_objects h g =
     (case deepcopy obj h of (new_obj, h1) \<Rightarrow>
        if int i = object_idx then
          (case first_key_of (material_mapping P) (material (h1 ! new_obj)) of
             Inl e \<Rightarrow> Some (Inl e, h1, g)
           | Inr curr_mat_name \<Rightarrow>
               (case resample_material (material_mapping P) curr_mat_name g of
                  None \<Rightarrow> None
                | Some (Inl e, g') \<Rightarrow> Some (Inl e, h1, g')
                | Some (Inr new_mat_name_out, g') \<Rightarrow>
                    material_loop P object_idx rest (new_objects @ [new_obj])
                      (h1[new_obj := (h1 ! new_obj)\<lparr>material := new_mat_name_out\<rparr>]) g'))
        else material_loop P object_idx rest (new_objects @ [new_obj]) h1 g)"

text \<open>The loop of the \<^verbatim>\<open>'drop'\<close> branch (lines 873-878).\<close>
fun drop_loop :: "int \<Rightarrow> (nat \<times> ref) list \<Rightarrow> ref list \<Rightarrow> store \<Rightarrow> ref list \<times> store" where
  "drop_loop object_idx [] new_objects h = (new_objects, h)"
| "drop_loop object_idx ((i, obj) # rest) new_objects h =
     (case deepcopy obj h of (new_obj, h1) \<Rightarrow>
        if int i = object_idx then drop_loop object_idx rest new_objects h1
        else drop_loop object_idx rest (new_objects @ [new_obj]) h1)"

text \<open>The first loop of the \<^verbatim>\<open>'add'\<close> branch (lines 889-900).\<close>
fun add_loop ::
  "arith \<Rightarrow> props \<Rightarrow> ref list \<Rightarrow> position list \<Rightarrow> ref list \<Rightarrow> store
     \<Rightarrow> (error + position list \<times> ref list) \<times> store" where
  "add_loop F P [] other_positions new_objects h = (Inr (other_positions, new_objects), h)"
| "add_loop F P (obj # rest) other_positions new_objects h =
     (case first_key_of (object_mapping P) (shape (h ! obj)) of
        Inl e \<Rightarrow> (Inl e, h)
      | Inr obj_name \<Rightarrow>
          (case first_val_of (size_mapping P) (size_name (h ! obj)) of
             Inl e \<Rightarrow> (Inl e, h)
           | Inr r \<Rightarrow>
               (case coords3d (h ! obj) of (x, y, z) \<Rightarrow>
                 (case deepcopy obj h of (new_obj, h1) \<Rightarrow>
                    add_loop F P rest (other_positions @ [(x, y, cube_adjust F obj_name r)])
                      (new_objects @ [new_obj]) h1))))"

text \<open>The loop of the \<^verbatim>\<open>'same'\<close> branch (lines 954-956).\<close>
fun same_loop :: "ref list \<Rightarrow> ref list \<Rightarrow> store \<Rightarrow> ref list \<times> store" where
  "same_loop [] new_objects h = (new_objects, h)"
| "same_loop (obj # rest) new_objects h =
     (case deepcopy obj h of (new_obj, h1) \<Rightarrow> same_loop rest (new_objects @ [new_obj]) h1)"

text \<open>
  The \<^verbatim>\<open>'add'\<close> branch (lines 879-943). \<open>Inr None\<close> is the early
  \<^verbatim>\<open>return None, None, False\<close> of line 907.
\<close>
definition add_branch ::
  "arith \<Rightarrow> props \<Rightarrow> args \<Rightarrow> scene_struct \<Rightarrow> ref list \<Rightarrow> store \<Rightarrow> rng
     \<Rightarrow> (error + ref list option) \<times> store \<times> rng" where
  "add_branch F P A S default_objects h g =
     (case choice (size_mapping P) g of
        (Inl e, g0) \<Rightarrow> (Inl e, h, g0)
      | (Inr new_size, g0) \<Rightarrow>
          (case add_loop F P default_objects [] [] h of
             (Inl e, h1) \<Rightarrow> (Inl e, h1, g0)
           | (Inr (other_positions, new_objects), h1) \<Rightarrow>
               (case place_loop F A S (snd new_size) other_positions 0 g0 of
                  (Inl e, g1) \<Rightarrow> (Inl e, h1, g1)
                | (Inr None, g1) \<Rightarrow> (Inr None, h1, g1)
                | (Inr (Some (new_x, new_y)), g1) \<Rightarrow>
                    (case bind (choose_shape_color P) (\<lambda>sc.
                           bind (random_theta F) (\<lambda>new_theta.
                           bind (choice (material_mapping P)) (\<lambda>new_mat.
                           ret (sc, new_theta, new_mat)))) g1 of
                       (Inl e, g2) \<Rightarrow> (Inl e, h1, g2)
                     | (Inr ((new_obj_name, new_obj_name_out, new_color_name, new_rgba),
                             new_theta, new_mat), g2) \<Rightarrow>
                         (case new_dict
                                 \<lparr>shape = new_obj_name_out, size_name = fst new_size,
                                  material = snd new_mat, coords3d = (new_x, new_y, - 1),
                                  rotation = new_theta, pixel_coords = None,
                                  color = new_color_name\<rparr> h1 of
                            (new_obj, h2) \<Rightarrow>
                              (Inr (Some (new_objects @ [new_obj])), h2, g2))))))"

text \<open>
  Lines 838-956: the list \<^verbatim>\<open>new_objects\<close> each change type builds. The branches
  \<^verbatim>\<open>'shape'\<close>, \<^verbatim>\<open>'switch'\<close> and \<^verbatim>\<open>'random'\<close> are \<^verbatim>\<open>pass\<close>, and any other string
  matches no branch: the list stays empty.
\<close>
definition change_objects ::
  "arith \<Rightarrow> props \<Rightarrow> args \<Rightarrow> scene_struct \<Rightarrow> ref list \<Rightarrow> string \<Rightarrow> store \<Rightarrow> rng
     \<Rightarrow> ((error + ref list option) \<times> store \<times> rng) option" where
  "change_objects F P A S default_objects change_type h g =
     (if change_type = ''color'' then
        (case randint 0 (int (length default_objects) - 1) g of
           (Inl e, g') \<Rightarrow> Some (Inl e, h, g')
         | (Inr object_idx, g') \<Rightarrow>
             map_option (\<lambda>(r, h', g''). (map_sum id Some r, h', g''))
               (color_loop P object_idx (enumerate 0 default_objects) [] h g'))
      else if change_type = ''material'' then
        (case randint 0 (int (length default_objects) - 1) g of
           (Inl e, g') \<Rightarrow> Some (Inl e, h, g')
         | (Inr object_idx, g') \<Rightarrow>
             map_option (\<lambda>(r, h', g''). (map_sum id Some r, h', g''))
               (material_loop P object_idx (enumerate 0 default_objects) [] h g'))
      else if change_type = ''shape'' then Some (Inr (Some []), h, g)
      else if change_type = ''drop'' then
        (case randint 0 (int (length default_objects) - 1) g of
           (Inl e, g') \<Rightarrow> Some (Inl e, h, g')
         | (Inr object_idx, g') \<Rightarrow>
             (case drop_loop object_idx (enumerate 0 default_objects) [] h of
                (new_objects, h') \<Rightarrow> Some (Inr (Some new_objects), h', g')))
      else if change_type = ''add'' then Some (add_branch F P A S default_objects h g)
      else if change_type = ''switch'' then Some (Inr (Some []), h, g)
      else if change_type = ''random'' then Some (Inr (Some []), h, g)
      else if change_type = ''same'' then
        (case same_loop default_objects [] h of
           (new_objects, h') \<Rightarrow> Some (Inr (Some new_objects), h', g))
      else Some (Inr (Some []), h, g))"

text \<open>
  \<^verbatim>\<open>render_object\<close> (lines 792-810): the Blender object created for a dict, and its new
  pixel coordinates. (The position it also returns is used nowhere.)
\<close>
definition render_object ::
  "arith \<Rightarrow> env \<Rightarrow> props \<Rightarrow> scene_obj \<Rightarrow> error + blender_obj \<times> vec3" where
  "render_object F E P obj =
     (case first_key_of (object_mapping P) (shape obj) of
        Inl e \<Rightarrow> Inl e
      | Inr obj_name \<Rightarrow>
     (case dict_get (color_name_to_rgba P) (color obj) of
        Inl e \<Rightarrow> Inl e
      | Inr rgba \<Rightarrow>
     (case first_val_of (size_mapping P) (size_name obj) of
        Inl e \<Rightarrow> Inl e
      | Inr r \<Rightarrow>
     (case first_key_of (material_mapping P) (material obj) of
        Inl e \<Rightarrow> Inl e
      | Inr mat_name \<Rightarrow>
     (case coords3d obj of (x, y, z) \<Rightarrow>
        Inr (\<lparr>b_name = obj_name, b_scale = cube_adjust F obj_name r, b_xy = (x, y),
              b_theta = rotation obj, b_material = mat_name, b_rgba = rgba\<rparr>,
             get_camera_coords E
               (obj_location E obj_name (cube_adjust F obj_name r) (x, y) (rotation obj))))))))"

text \<open>Lines 961-965: render every new object and store its pixel coordinates in it.\<close>
fun render_loop ::
  "arith \<Rightarrow> env \<Rightarrow> props \<Rightarrow> ref list \<Rightarrow> blender_obj list \<Rightarrow> store
     \<Rightarrow> (error + blender_obj list) \<times> store"
where
  "render_loop F E P [] new_blend_objects h = (Inr new_blend_objects, h)"
| "render_loop F E P (obj # rest) new_blend_objects h =
     (case render_object F E P (h ! obj) of
        Inl e \<Rightarrow> (Inl e, h)
      | Inr (new_blend_object, new_pixel_coords) \<Rightarrow>
          render_loop F E P rest (new_blend_objects @ [new_blend_object])
            (h[obj := (h ! obj)\<lparr>pixel_coords := Some new_pixel_coords\<rparr>]))"

text \<open>
  \<^verbatim>\<open>apply_change\<close> (lines 771-976). The result \<open>Inr None\<close> is
  \<^verbatim>\<open>(None, None, False)\<close>, \<open>Inr (Some (new_objects, new_blend_objects))\<close> is
  \<^verbatim>\<open>(new_objects, new_blend_objects, True)\<close>; the outer \<open>None\<close> is a call that never
  returns (only the resampling loops of \<^verbatim>\<open>'color'\<close> and \<^verbatim>\<open>'material'\<close> can do that).
\<close>
definition apply_change ::
  "arith \<Rightarrow> env \<Rightarrow> props \<Rightarrow> args \<Rightarrow> scene_struct \<Rightarrow> ref list \<Rightarrow> string \<Rightarrow> store \<Rightarrow> rng
     \<Rightarrow> ((error + (ref list \<times> blender_obj list) option) \<times> store \<times> rng) option" where
  "apply_change F E P A S default_objects change_type h g =
     (case change_objects F P A S default_objects change_type h g of
        None \<Rightarrow> None
      | Some (Inl e, h1, g1) \<Rightarrow> Some (Inl e, h1, g1)
      | Some (Inr None, h1, g1) \<Rightarrow> Some (Inr None, h1, g1)
      | Some (Inr (Some new_objects), h1, g1) \<Rightarrow>
          (case render_loop F E P new_objects [] h1 of
             (Inl e, h2) \<Rightarrow> Some (Inl e, h2, g1)
           | (Inr new_blend_objects, h2) \<Rightarrow>
               (case check_visibility E new_blend_objects (min_pixels_per_object A) g1 of
                  (Inl e, g2) \<Rightarrow> Some (Inl e, h2, g2)
                | (Inr all_visible, g2) \<Rightarrow>
                    if \<not> all_visible then Some (Inr None, h2, g2)
                    else Some (Inr (Some (new_objects, new_blend_objects)), h2, g2))))"

subsection \<open>Stores that grow\<close>

text \<open>The store \<open>h'\<close> is \<open>h\<close> with new cells allocated after it.\<close>
definition extends :: "store \<Rightarrow> store \<Rightarrow> bool" where
  "extends h h' \<longleftrightarrow> (\<exists>ext. h' = h @ ext)"

text \<open>The references \<open>refs\<close> point to cells allocated after those of \<open>h\<close>.\<close>
definition fresh :: "store \<Rightarrow> ref list \<Rightarrow> bool" where
  "fresh h refs \<longleftrightarrow> (\<forall>a \<in> set refs. length h \<le> a)"

section \<open>Properties of check_visibility\<close>

lemma counter_add_map_of:
  "map_of (counter_add x kns) =
     (map_of kns)(x \<mapsto> (case map_of kns x of None \<Rightarrow> 1 | Some n \<Rightarrow> Suc n))"
  by (induction kns) (auto simp: fun_eq_iff)

lemma counter_add_keys: "set (map fst (counter_add x kns)) = insert x (set (map fst kns))"
proof -
  have "set (map fst (counter_add x kns)) = dom (map_of (counter_add x kns))"
    by (simp add: dom_map_of_conv_image_fst)
  also have "\<dots> = insert x (dom (map_of kns))"
    by (simp add: counter_add_map_of)
  finally show ?thesis by (simp add: dom_map_of_conv_image_fst)
qed

lemma counter_add_distinct: "distinct (map fst kns) \<Longrightarrow> distinct (map fst (counter_add x kns))"
proof (induction kns)
  case Nil
  then show ?case by simp
next
  case (Cons kn kns)
  have "fst ` set (counter_add x kns) = insert x (fst ` set kns)"
    using counter_add_keys [of x kns] by simp
  with Cons show ?case by (cases kn) auto
qed

lemma fold_counter_add_distinct:
  "distinct (map fst acc) \<Longrightarrow> distinct (map fst (fold counter_add xs acc))"
  by (induction xs arbitrary: acc) (simp_all add: counter_add_distinct)

lemma fold_counter_add_keys:
  "set (map fst (fold counter_add xs acc)) = set xs \<union> set (map fst acc)"
  by (induction xs arbitrary: acc) (simp_all add: counter_add_keys del: set_map)

lemma fold_counter_add_map_of:
  "map_of (fold counter_add xs acc) c =
     (case map_of acc c of
        None \<Rightarrow> if c \<in> set xs then Some (count_list xs c) else None
      | Some n \<Rightarrow> Some (n + count_list xs c))"
proof (induction xs arbitrary: acc)
  case Nil
  then show ?case by (simp split: option.splits)
next
  case (Cons x xs)
  show ?case
    by (simp add: Cons.IH counter_add_map_of split: option.splits)
qed

lemma Counter_distinct: "distinct (map fst (Counter xs))"
  by (simp add: Counter_def fold_counter_add_distinct)

text \<open>\<^verbatim>\<open>len(color_count)\<close> is the number of distinct colours.\<close>
lemma Counter_length: "length (Counter xs) = card (set xs)"
proof -
  have "length (Counter xs) = length (map fst (Counter xs))" by simp
  also have "\<dots> = card (set (map fst (Counter xs)))"
    using Counter_distinct [of xs] by (simp only: distinct_card)
  also have "\<dots> = card (set xs)"
    by (simp only: Counter_def fold_counter_add_keys) simp
  finally show ?thesis .
qed

lemma Counter_set: "set (Counter xs) = (\<lambda>c. (c, count_list xs c)) ` set xs"
proof -
  have m: "\<And>c. map_of (Counter xs) c = (if c \<in> set xs then Some (count_list xs c) else None)"
    by (simp add: Counter_def fold_counter_add_map_of)
  show ?thesis
  proof (intro set_eqI iffI)
    fix kn assume "kn \<in> set (Counter xs)"
    then have "map_of (Counter xs) (fst kn) = Some (snd kn)"
      using Counter_distinct [of xs] map_of_is_SomeI [of "Counter xs" "fst kn" "snd kn"] by simp
    then show "kn \<in> (\<lambda>c. (c, count_list xs c)) ` set xs"
      by (cases kn) (auto simp: m split: if_splits)
  next
    fix kn assume "kn \<in> (\<lambda>c. (c, count_list xs c)) ` set xs"
    then obtain c where c: "c \<in> set xs" "kn = (c, count_list xs c)" by auto
    then have "map_of (Counter xs) c = Some (count_list xs c)" by (simp add: m)
    then show "kn \<in> set (Counter xs)" using c by (simp add: map_of_SomeD)
  qed
qed

lemma counts_ok_iff: "counts_ok kns m \<longleftrightarrow> (\<forall>kn \<in> set kns. m \<le> int (snd kn))"
  by (induction kns m rule: counts_ok.induct) auto

lemma set_most_common: "set (most_common kns) = set kns"
  by (simp add: most_common_def)

text \<open>
  What the check decides: the image has exactly one colour more than there are objects,
  and every colour of the image, the background's too, covers at least
  \<^verbatim>\<open>min_pixels_per_object\<close> pixels.
\<close>
lemma check_pixels_True_iff:
  "check_pixels p n m = Inr True \<longleftrightarrow>
     (\<exists>cols. pixels4 p = Inr cols \<and> card (set cols) = n + 1
             \<and> (\<forall>c \<in> set cols. m \<le> int (count_list cols c)))"
  by (auto simp: check_pixels_def Let_def Counter_length counts_ok_iff set_most_common Counter_set
           split: sum.splits)

text \<open>
  C3. \<^verbatim>\<open>check_visibility\<close> is claimed to return true exactly when the image has
  \<open>object_count + 1\<close> distinct colours and every object covers at least
  \<^verbatim>\<open>min_pixels_per_object\<close> pixels. The code applies the threshold to the background
  colour as well: on a four-pixel image in which the one object covers three pixels and
  the background one, with a threshold of two, the image has two colours, the object's
  colour covers three pixels, and the function returns false.
\<close>
theorem check_visibility_thresholds_background:
  "check_visibility
     \<lparr>render_shadeless = (\<lambda>objs g. ([1, 0, 0, 1, 1, 0, 0, 1, 1, 0, 0, 1, 0, 0, 0, 1], g)),
      obj_location = loc, get_camera_coords = cam\<rparr> [b] 2 g = (Inr False, g)
   \<and> pixels4 [1, 0, 0, 1, 1, 0, 0, 1, 1, 0, 0, 1, 0, 0, 0, 1]
       = Inr [(1, 0, 0, 1), (1, 0, 0, 1), (1, 0, 0, 1), (0, 0, 0, 1)]
   \<and> card (set ([(1, 0, 0, 1), (1, 0, 0, 1), (1, 0, 0, 1), (0, 0, 0, 1)] :: rgba list))
       = length [b] + 1
   \<and> count_list ([(1, 0, 0, 1), (1, 0, 0, 1), (1, 0, 0, 1), (0, 0, 0, 1)] :: rgba list)
       (1, 0, 0, 1) = 3"
  by (simp add: check_visibility_def check_pixels_def Counter_def most_common_def)

section \<open>Properties of compute_all_relationships\<close>

lemma related_fold_pairs:
  "set (fold (related_step F obj1 v eps) jos acc) =
     set acc \<union> {j. \<exists>obj2. (j, obj2) \<in> set jos \<and> obj2 \<noteq> obj1
                  \<and> eps < dot3 F (diff3 F (coords3d obj2) (coords3d obj1)) v}"
proof (induction jos arbitrary: acc)
  case Nil
  then show ?case by simp
next
  case (Cons jo jos)
  obtain j obj2 where jo: "jo = (j, obj2)" by (cases jo)
  show ?case
    unfolding fold_Cons o_apply Cons.IH jo
    by (auto simp: related_step_def)
qed

lemma related_fold_set:
  "set (fold (related_step F obj1 v eps) (enumerate 0 objs) []) =
     {j. j < length objs \<and> objs ! j \<noteq> obj1
          \<and> eps < dot3 F (diff3 F (coords3d (objs ! j)) (coords3d obj1)) v}"
  unfolding related_fold_pairs by (auto simp: in_set_enumerate_eq)

lemma related_fold_distinct_gen:
  "distinct acc \<Longrightarrow> distinct (fold (related_step F obj1 v eps) jos acc)"
proof (induction jos arbitrary: acc)
  case Nil
  then show ?case by simp
next
  case (Cons jo jos)
  then show ?case by (cases jo) (simp add: related_step_def)
qed

text \<open>The arithmetic of lines 998-999, written out.\<close>
lemma dot3_diff3:
  "dot3 F (diff3 F c2 c1) (v0, v1, v2) =
     fl_add F (fl_add F (fl_add F 0
        (fl_mul F (fl_sub F (fst c2) (fst c1)) v0))
        (fl_mul F (fl_sub F (fst (snd c2)) (fst (snd c1))) v1))
        (fl_mul F (fl_sub F (snd (snd c2)) (snd (snd c1))) v2)"
  by (cases c2; cases c1) (simp add: dot3_def diff3_def)

lemma dot3_diff3_self:
  assumes "\<forall>x. fl_sub F x x = 0" and "\<forall>y. fl_mul F 0 y = 0" and "fl_add F 0 0 = 0"
  shows "dot3 F (diff3 F c c) v = 0"
  using assms by (cases c; cases v) (simp add: dot3_def diff3_def)

text \<open>The related list of an object is increasing and does not hold the object's index.\<close>
lemma related_of_sorted:
  "sorted (related_of F objs v eps obj1) \<and> distinct (related_of F objs v eps obj1)"
  by (simp add: related_of_def related_fold_distinct_gen)

lemma related_of_irrefl: "i < length objs \<Longrightarrow> i \<notin> set (related_of F objs v eps (objs ! i))"
  by (simp add: related_of_def related_fold_set)

lemma related_of_bound: "set (related_of F objs v eps obj1) \<subseteq> {0..<length objs}"
  by (auto simp: related_of_def related_fold_set)

lemma related_of_filter:
  assumes "i < length objs"
    and "\<forall>x. fl_sub F x x = 0" and "\<forall>y. fl_mul F 0 y = 0" and "fl_add F 0 0 = 0"
    and "0 \<le> eps"
  shows "related_of F objs v eps (objs ! i) =
         filter (\<lambda>j. j \<noteq> i \<and>
                  eps < dot3 F (diff3 F (coords3d (objs ! j)) (coords3d (objs ! i))) v)
           [0..<length objs]"
proof (rule sorted_distinct_set_unique)
  let ?res = "filter (\<lambda>j. j \<noteq> i \<and>
                  eps < dot3 F (diff3 F (coords3d (objs ! j)) (coords3d (objs ! i))) v)
           [0..<length objs]"
  show "sorted (related_of F objs v eps (objs ! i))" by (simp add: related_of_sorted)
  show "distinct (related_of F objs v eps (objs ! i))" by (simp add: related_of_sorted)
  show "sorted ?res" by (simp add: sorted_wrt_filter)
  show "distinct ?res" by simp
  have self: "\<not> eps < dot3 F (diff3 F (coords3d (objs ! i)) (coords3d (objs ! i))) v"
    using dot3_diff3_self [OF assms(2,3,4)] assms(5) by simp
  have "\<And>j. j < length objs \<Longrightarrow>
          eps < dot3 F (diff3 F (coords3d (objs ! j)) (coords3d (objs ! i))) v \<Longrightarrow>
          (objs ! j \<noteq> objs ! i) = (j \<noteq> i)"
    using self by auto
  then show "set (related_of F objs v eps (objs ! i)) = set ?res"
    by (auto simp: related_of_def related_fold_set)
qed

text \<open>The entry a direction vector gives.\<close>
lemma relationships_entry:
  "length (map (related_of F objs (v0, v1, v2) eps) objs) = length objs \<and>
    (\<forall>i < length objs.
       sorted (map (related_of F objs (v0, v1, v2) eps) objs ! i)
       \<and> distinct (map (related_of F objs (v0, v1, v2) eps) objs ! i)
       \<and> i \<notin> set (map (related_of F objs (v0, v1, v2) eps) objs ! i)
       \<and> set (map (related_of F objs (v0, v1, v2) eps) objs ! i) \<subseteq> {0..<length objs}
       \<and> ((\<forall>x. fl_sub F x x = 0) \<and> (\<forall>y. fl_mul F 0 y = 0) \<and> fl_add F 0 0 = 0 \<and> 0 \<le> eps \<longrightarrow>
            map (related_of F objs (v0, v1, v2) eps) objs ! i = filter (\<lambda>j. j \<noteq> i \<and>
              eps < fl_add F (fl_add F (fl_add F 0
                (fl_mul F (fl_sub F (fst (coords3d (objs ! j))) (fst (coords3d (objs ! i)))) v0))
                (fl_mul F (fl_sub F (fst (snd (coords3d (objs ! j))))
                                    (fst (snd (coords3d (objs ! i))))) v1))
                (fl_mul F (fl_sub F (snd (snd (coords3d (objs ! j))))
                                    (snd (snd (coords3d (objs ! i))))) v2))
              [0..<length objs]))"
proof (intro conjI allI impI)
  show "length (map (related_of F objs (v0, v1, v2) eps) objs) = length objs" by simp
next
  fix i assume i: "i < length objs"
  then have r: "map (related_of F objs (v0, v1, v2) eps) objs ! i
                  = related_of F objs (v0, v1, v2) eps (objs ! i)"
    by simp
  show "sorted (map (related_of F objs (v0, v1, v2) eps) objs ! i)"
       "distinct (map (related_of F objs (v0, v1, v2) eps) objs ! i)"
    by (simp_all only: r related_of_sorted)
  show "i \<notin> set (map (related_of F objs (v0, v1, v2) eps) objs ! i)"
    unfolding r using i by (rule related_of_irrefl)
  show "set (map (related_of F objs (v0, v1, v2) eps) objs ! i) \<subseteq> {0..<length objs}"
    unfolding r by (rule related_of_bound)
  assume c: "(\<forall>x. fl_sub F x x = 0) \<and> (\<forall>y. fl_mul F 0 y = 0) \<and> fl_add F 0 0 = 0 \<and> 0 \<le> eps"
  then have "related_of F objs (v0, v1, v2) eps (objs ! i) =
         filter (\<lambda>j. j \<noteq> i \<and>
                  eps < dot3 F (diff3 F (coords3d (objs ! j)) (coords3d (objs ! i))) (v0, v1, v2))
           [0..<length objs]"
    using i by (intro related_of_filter) simp_all
  then show "map (related_of F objs (v0, v1, v2) eps) objs ! i = filter (\<lambda>j. j \<noteq> i \<and>
              eps < fl_add F (fl_add F (fl_add F 0
                (fl_mul F (fl_sub F (fst (coords3d (objs ! j))) (fst (coords3d (objs ! i)))) v0))
                (fl_mul F (fl_sub F (fst (snd (coords3d (objs ! j))))
                                    (fst (snd (coords3d (objs ! i))))) v1))
                (fl_mul F (fl_sub F (snd (snd (coords3d (objs ! j))))
                                    (snd (snd (coords3d (objs ! i))))) v2))
              [0..<length objs]"
    by (simp only: r dot3_diff3)
qed

lemma relationships_keys:
  "map fst (compute_all_relationships F
      \<lparr>directions = set_directions plane_behind plane_left plane_up, objects = objs\<rparr> eps)
     = [''behind'', ''front'', ''left'', ''right'']"
  by (simp add: compute_all_relationships_def set_directions_def)

lemma relationships_lookup:
  "map_of (compute_all_relationships F
      \<lparr>directions = set_directions (b0, b1, b2) (l0, l1, l2) plane_up, objects = objs\<rparr> eps)
     = [''behind'' \<mapsto> map (related_of F objs (b0, b1, b2) eps) objs,
        ''front'' \<mapsto> map (related_of F objs (- b0, - b1, - b2) eps) objs,
        ''left'' \<mapsto> map (related_of F objs (l0, l1, l2) eps) objs,
        ''right'' \<mapsto> map (related_of F objs (- l0, - l1, - l2) eps) objs]"
  by (simp add: compute_all_relationships_def set_directions_def neg3_def fun_eq_iff)

text \<open>
  C4. For the six directions the scene code records, the result has exactly the keys of
  the four horizontal directions, for every list of objects. The entry of a direction has
  one list for each object; the list of object \<open>i\<close> is increasing, holds indices of
  objects only, and never \<open>i\<close> itself. The code skips an object that is equal to object
  \<open>i\<close> as a dict rather than the index \<open>i\<close>: where a float minus itself is zero, zero
  times a float is zero, zero plus zero is zero and \<open>eps\<close> is not negative (all true of
  doubles and of the default \<open>eps\<close>), the list of \<open>i\<close> is exactly the increasing list of
  the indices \<open>j \<noteq> i\<close> for which the sum of the products of the coordinate differences
  \<open>position j - position i\<close> with the direction vector, computed as the code computes
  it, is greater than \<open>eps\<close>.
\<close>
theorem compute_all_relationships_entries:
  "map fst (compute_all_relationships F
      \<lparr>directions = set_directions (b0, b1, b2) (l0, l1, l2) plane_up, objects = objs\<rparr> eps)
     = [''behind'', ''front'', ''left'', ''right'']
   \<and> (\<forall>(name, v0, v1, v2) \<in> {(''behind'', b0, b1, b2), (''front'', - b0, - b1, - b2),
                                (''left'', l0, l1, l2), (''right'', - l0, - l1, - l2)}.
        \<exists>rel. map_of (compute_all_relationships F
                 \<lparr>directions = set_directions (b0, b1, b2) (l0, l1, l2) plane_up,
                  objects = objs\<rparr> eps) name = Some rel
          \<and> length rel = length objs
          \<and> (\<forall>i < length objs.
               sorted (rel ! i) \<and> distinct (rel ! i) \<and> i \<notin> set (rel ! i)
               \<and> set (rel ! i) \<subseteq> {0..<length objs}
               \<and> ((\<forall>x. fl_sub F x x = 0) \<and> (\<forall>y. fl_mul F 0 y = 0) \<and> fl_add F 0 0 = 0
                    \<and> 0 \<le> eps \<longrightarrow>
                  rel ! i = filter (\<lambda>j. j \<noteq> i \<and>
                    eps < fl_add F (fl_add F (fl_add F 0
                      (fl_mul F (fl_sub F (fst (coords3d (objs ! j)))
                                          (fst (coords3d (objs ! i)))) v0))
                      (fl_mul F (fl_sub F (fst (snd (coords3d (objs ! j))))
                                          (fst (snd (coords3d (objs ! i))))) v1))
                      (fl_mul F (fl_sub F (snd (snd (coords3d (objs ! j))))
                                          (snd (snd (coords3d (objs ! i))))) v2))
                    [0..<length objs])))"
  unfolding relationships_keys relationships_lookup
  using relationships_entry [of F objs b0 b1 b2 eps]
        relationships_entry [of F objs "- b0" "- b1" "- b2" eps]
        relationships_entry [of F objs l0 l1 l2 eps]
        relationships_entry [of F objs "- l0" "- l1" "- l2" eps]
  by simp


theorem compute_all_relationships_entries_witness:
  "\<exists>rel. map_of (compute_all_relationships
       \<lparr>fl_add = (+), fl_sub = (-), fl_mul = (*), fl_div = (/), fl_sqrt = sqrt\<rparr>
       \<lparr>directions = set_directions (3 / 5, 4 / 5, 0) (- 4 / 5, 3 / 5, 0) (0, 0, 1),
        objects = [\<lparr>shape = ''cube'', size_name = ''large'', material = ''metal'',
                    coords3d = (0, 0, 1), rotation = 0, pixel_coords = None, color = ''red''\<rparr>,
                   \<lparr>shape = ''sphere'', size_name = ''small'', material = ''rubber'',
                    coords3d = (1, 0, 1), rotation = 0, pixel_coords = None, color = ''blue''\<rparr>,
                   \<lparr>shape = ''cylinder'', size_name = ''small'', material = ''rubber'',
                    coords3d = (1, 1, 1), rotation = 0, pixel_coords = None,
                    color = ''green''\<rparr>]\<rparr>
       default_eps) ''left'' = Some rel
     \<and> rel ! 0 = [] \<and> rel ! 1 = [0, 2] \<and> rel ! 2 = []"
proof -
  let ?F = "\<lparr>fl_add = (+), fl_sub = (-), fl_mul = (*), fl_div = (/), fl_sqrt = sqrt\<rparr>"
  let ?objs = "[\<lparr>shape = ''cube'', size_name = ''large'', material = ''metal'',
                    coords3d = (0::real, 0::real, 1::real), rotation = 0, pixel_coords = None,
                    color = ''red''\<rparr>,
                   \<lparr>shape = ''sphere'', size_name = ''small'', material = ''rubber'',
                    coords3d = (1, 0, 1), rotation = 0, pixel_coords = None, color = ''blue''\<rparr>,
                   \<lparr>shape = ''cylinder'', size_name = ''small'', material = ''rubber'',
                    coords3d = (1, 1, 1), rotation = 0, pixel_coords = None,
                    color = ''green''\<rparr>]"
  have u: "[0..<length ?objs] = [0, 1, 2]" by (simp add: upt_conv_Cons)
  have c: "(\<forall>x. fl_sub ?F x x = 0) \<and> (\<forall>y. fl_mul ?F 0 y = 0) \<and> fl_add ?F 0 0 = 0
            \<and> 0 \<le> default_eps"
    by (simp add: default_eps_def)
  have i0: "0 < length ?objs" and i1: "1 < length ?objs" and i2: "2 < length ?objs"
    by simp_all
  have "(''left'', - 4 / 5, 3 / 5, 0 :: real) \<in>
          {(''behind'', 3 / 5, 4 / 5, 0), (''front'', - (3 / 5), - (4 / 5), - 0),
           (''left'', - 4 / 5, 3 / 5, 0), (''right'', - (- 4 / 5), - (3 / 5), - 0)}"
    by simp
  with compute_all_relationships_entries
         [where F = ?F and ?b0.0 = "3 / 5" and ?b1.0 = "4 / 5" and ?b2.0 = 0
            and ?l0.0 = "- 4 / 5" and ?l1.0 = "3 / 5" and ?l2.0 = 0
            and plane_up = "(0, 0, 1)" and objs = ?objs and eps = default_eps]
  obtain rel where
    m: "map_of (compute_all_relationships ?F
          \<lparr>directions = set_directions (3 / 5, 4 / 5, 0) (- 4 / 5, 3 / 5, 0) (0, 0, 1),
           objects = ?objs\<rparr> default_eps) ''left'' = Some rel"
    and e: "\<forall>i < length ?objs.
               sorted (rel ! i) \<and> distinct (rel ! i) \<and> i \<notin> set (rel ! i)
               \<and> set (rel ! i) \<subseteq> {0..<length ?objs}
               \<and> ((\<forall>x. fl_sub ?F x x = 0) \<and> (\<forall>y. fl_mul ?F 0 y = 0) \<and> fl_add ?F 0 0 = 0
                    \<and> 0 \<le> default_eps \<longrightarrow>
                  rel ! i = filter (\<lambda>j. j \<noteq> i \<and>
                    default_eps < fl_add ?F (fl_add ?F (fl_add ?F 0
                      (fl_mul ?F (fl_sub ?F (fst (coords3d (?objs ! j)))
                                          (fst (coords3d (?objs ! i)))) (- 4 / 5)))
                      (fl_mul ?F (fl_sub ?F (fst (snd (coords3d (?objs ! j))))
                                          (fst (snd (coords3d (?objs ! i))))) (3 / 5)))
                      (fl_mul ?F (fl_sub ?F (snd (snd (coords3d (?objs ! j))))
                                          (snd (snd (coords3d (?objs ! i))))) 0))
                    [0..<length ?objs])"
    by blast
  from e i0 c have "rel ! 0 = []" unfolding u by (simp add: default_eps_def)
  moreover from e i1 c have "rel ! 1 = [0, 2]" unfolding u by (simp add: default_eps_def)
  moreover from e i2 c have "rel ! 2 = []" unfolding u by (simp add: default_eps_def)
  ultimately show ?thesis using m by simp
qed

section \<open>Properties of apply_change: the frame\<close>

lemma extends_refl: "extends h h"
  by (simp add: extends_def)

lemma extends_append: "extends h0 h \<Longrightarrow> extends h0 (h @ ext)"
  by (auto simp: extends_def)

lemma extends_length: "extends h h' \<Longrightarrow> length h \<le> length h'"
  by (auto simp: extends_def)

lemma extends_take: "extends h h' \<Longrightarrow> take (length h) h' = h"
  by (auto simp: extends_def)

lemma extends_update_fresh: "extends h h1 \<Longrightarrow> length h \<le> a \<Longrightarrow> extends h (h1[a := v])"
  by (auto simp: extends_def list_update_append)

lemma fresh_Nil: "fresh h []"
  by (simp add: fresh_def)

lemma fresh_snoc: "fresh h0 acc \<Longrightarrow> extends h0 h \<Longrightarrow> fresh h0 (acc @ [length h])"
  by (auto simp: fresh_def dest: extends_length)

lemma same_loop_frame:
  "same_loop objs acc h = (acc', h') \<Longrightarrow> extends h0 h \<Longrightarrow> fresh h0 acc
     \<Longrightarrow> extends h0 h' \<and> fresh h0 acc'"
proof (induction objs arbitrary: acc h)
  case Nil
  then show ?case by simp
next
  case (Cons obj rest)
  from Cons.prems(1) have "same_loop rest (acc @ [length h]) (h @ [h ! obj]) = (acc', h')"
    by (simp add: deepcopy_def)
  then show ?case
    by (rule Cons.IH) (use Cons.prems in \<open>simp_all add: extends_append fresh_snoc\<close>)
qed

lemma drop_loop_frame:
  "drop_loop k jos acc h = (acc', h') \<Longrightarrow> extends h0 h \<Longrightarrow> fresh h0 acc
     \<Longrightarrow> extends h0 h' \<and> fresh h0 acc'"
proof (induction jos arbitrary: acc h)
  case Nil
  then show ?case by simp
next
  case (Cons jo rest)
  obtain i obj where jo: "jo = (i, obj)" by (cases jo)
  show ?case
  proof (cases "int i = k")
    case True
    with Cons.prems(1) have "drop_loop k rest acc (h @ [h ! obj]) = (acc', h')"
      by (simp add: deepcopy_def jo)
    then show ?thesis
      by (rule Cons.IH) (use Cons.prems in \<open>simp_all add: extends_append\<close>)
  next
    case False
    with Cons.prems(1) have "drop_loop k rest (acc @ [length h]) (h @ [h ! obj]) = (acc', h')"
      by (simp add: deepcopy_def jo)
    then show ?thesis
      by (rule Cons.IH) (use Cons.prems in \<open>simp_all add: extends_append fresh_snoc\<close>)
  qed
qed

lemma add_loop_frame:
  "add_loop F P objs ps acc h = (r, h') \<Longrightarrow> extends h0 h \<Longrightarrow> fresh h0 acc
     \<Longrightarrow> extends h0 h' \<and> (\<forall>ps' acc'. r = Inr (ps', acc') \<longrightarrow> fresh h0 acc')"
proof (induction objs arbitrary: ps acc h)
  case Nil
  then show ?case by auto
next
  case (Cons obj rest)
  show ?case
  proof (cases "first_key_of (object_mapping P) (shape (h ! obj))")
    case (Inl e)
    with Cons.prems show ?thesis by auto
  next
    case (Inr obj_name)
    note n = this
    show ?thesis
    proof (cases "first_val_of (size_mapping P) (size_name (h ! obj))")
      case (Inl e)
      with n Cons.prems show ?thesis by auto
    next
      case (Inr r0)
      obtain x y z where c: "coords3d (h ! obj) = (x, y, z)" by (cases "coords3d (h ! obj)")
      from Cons.prems(1) n Inr c
      have "add_loop F P rest (ps @ [(x, y, cube_adjust F obj_name r0)]) (acc @ [length h])
              (h @ [h ! obj]) = (r, h')"
        by (simp add: deepcopy_def)
      then show ?thesis
        by (rule Cons.IH) (use Cons.prems in \<open>simp_all add: extends_append fresh_snoc\<close>)
    qed
  qed
qed


lemma fresh_Cons: "fresh h0 (a # refs) \<longleftrightarrow> length h0 \<le> a \<and> fresh h0 refs"
  by (simp add: fresh_def)

lemma color_loop_frame:
  "color_loop P k jos acc h g = Some (r, h', g') \<Longrightarrow> extends h0 h \<Longrightarrow> fresh h0 acc
     \<Longrightarrow> extends h0 h' \<and> (\<forall>acc'. r = Inr acc' \<longrightarrow> fresh h0 acc')"
proof (induction jos arbitrary: acc h g)
  case Nil
  then show ?case by auto
next
  case (Cons jo rest)
  obtain i obj where jo: "jo = (i, obj)" by (cases jo)
  have e1: "extends h0 (h @ [h ! obj])" using Cons.prems(2) by (rule extends_append)
  have f1: "fresh h0 (acc @ [length h])" using Cons.prems(3,2) by (rule fresh_snoc)
  show ?case
  proof (cases "int i = k")
    case False
    with Cons.prems(1)
    have "color_loop P k rest (acc @ [length h]) (h @ [h ! obj]) g = Some (r, h', g')"
      by (simp add: deepcopy_def jo)
    then show ?thesis using e1 f1 by (rule Cons.IH)
  next
    case True
    note eq = this
    show ?thesis
    proof (cases "resample_color (color_name_to_rgba P) (color ((h @ [h ! obj]) ! length h)) g")
      case None
      with eq Cons.prems(1) show ?thesis by (simp add: deepcopy_def jo)
    next
      case (Some rg)
      obtain rr g1 where rg: "rg = (rr, g1)" by (cases rg)
      show ?thesis
      proof (cases rr)
        case (Inl e)
        with Some rg eq Cons.prems(1) have "r = Inl e" "h' = h @ [h ! obj]"
          by (simp_all add: deepcopy_def jo)
        with e1 show ?thesis by simp
      next
        case (Inr c)
        with Some rg eq Cons.prems(1)
        have "color_loop P k rest (acc @ [length h])
                ((h @ [h ! obj])[length h := ((h @ [h ! obj]) ! length h)\<lparr>color := c\<rparr>]) g1
              = Some (r, h', g')"
          by (simp add: deepcopy_def jo)
        moreover have "extends h0 ((h @ [h ! obj])[length h := ((h @ [h ! obj]) ! length h)\<lparr>color := c\<rparr>])"
          using e1 extends_length [OF Cons.prems(2)] by (rule extends_update_fresh)
        ultimately show ?thesis using f1 by (rule Cons.IH)
      qed
    qed
  qed
qed

lemma material_loop_frame:
  "material_loop P k jos acc h g = Some (r, h', g') \<Longrightarrow> extends h0 h \<Longrightarrow> fresh h0 acc
     \<Longrightarrow> extends h0 h' \<and> (\<forall>acc'. r = Inr acc' \<longrightarrow> fresh h0 acc')"
proof (induction jos arbitrary: acc h g)
  case Nil
  then show ?case by auto
next
  case (Cons jo rest)
  obtain i obj where jo: "jo = (i, obj)" by (cases jo)
  have e1: "extends h0 (h @ [h ! obj])" using Cons.prems(2) by (rule extends_append)
  have f1: "fresh h0 (acc @ [length h])" using Cons.prems(3,2) by (rule fresh_snoc)
  show ?case
  proof (cases "int i = k")
    case False
    with Cons.prems(1)
    have "material_loop P k rest (acc @ [length h]) (h @ [h ! obj]) g = Some (r, h', g')"
      by (simp add: deepcopy_def jo)
    then show ?thesis using e1 f1 by (rule Cons.IH)
  next
    case True
    note eq = this
    show ?thesis
    proof (cases "first_key_of (material_mapping P) (material ((h @ [h ! obj]) ! length h))")
      case (Inl e)
      with eq Cons.prems(1) have "r = Inl e" "h' = h @ [h ! obj]"
        by (simp_all add: deepcopy_def jo)
      with e1 show ?thesis by simp
    next
      case (Inr curr)
      note k = this
      show ?thesis
      proof (cases "resample_material (material_mapping P) curr g")
        case None
        with k eq Cons.prems(1) show ?thesis by (simp add: deepcopy_def jo)
      next
        case (Some rg)
        obtain rr g1 where rg: "rg = (rr, g1)" by (cases rg)
        show ?thesis
        proof (cases rr)
          case (Inl e)
          with Some rg k eq Cons.prems(1) have "r = Inl e" "h' = h @ [h ! obj]"
            by (simp_all add: deepcopy_def jo)
          with e1 show ?thesis by simp
        next
          case (Inr c)
          with Some rg k eq Cons.prems(1)
          have "material_loop P k rest (acc @ [length h])
                  ((h @ [h ! obj])[length h := ((h @ [h ! obj]) ! length h)\<lparr>material := c\<rparr>]) g1
                = Some (r, h', g')"
            by (simp add: deepcopy_def jo)
          moreover have "extends h0 ((h @ [h ! obj])[length h := ((h @ [h ! obj]) ! length h)\<lparr>material := c\<rparr>])"
            using e1 extends_length [OF Cons.prems(2)] by (rule extends_update_fresh)
          ultimately show ?thesis using f1 by (rule Cons.IH)
        qed
      qed
    qed
  qed
qed

lemma render_loop_frame:
  "render_loop F E P objs nb h = (r, h') \<Longrightarrow> extends h0 h \<Longrightarrow> fresh h0 objs \<Longrightarrow> extends h0 h'"
proof (induction objs arbitrary: nb h)
  case Nil
  then show ?case by simp
next
  case (Cons obj rest)
  from Cons.prems(3) have a: "length h0 \<le> obj" and f: "fresh h0 rest"
    by (simp_all add: fresh_Cons)
  show ?case
  proof (cases "render_object F E P (h ! obj)")
    case (Inl e)
    with Cons.prems show ?thesis by simp
  next
    case (Inr bp)
    obtain b pc where bp: "bp = (b, pc)" by (cases bp)
    from Cons.prems(1) Inr bp
    have "render_loop F E P rest (nb @ [b]) (h[obj := (h ! obj)\<lparr>pixel_coords := Some pc\<rparr>]) = (r, h')"
      by simp
    moreover have "extends h0 (h[obj := (h ! obj)\<lparr>pixel_coords := Some pc\<rparr>])"
      using Cons.prems(2) a by (rule extends_update_fresh)
    ultimately show ?thesis using f by (rule Cons.IH)
  qed
qed


lemma add_branch_frame:
  assumes "add_branch F P A S base h g = (r, h1, g1)"
  shows "extends h h1 \<and> (\<forall>refs. r = Inr (Some refs) \<longrightarrow> fresh h refs)"
proof -
  obtain ra ha where al: "add_loop F P base [] [] h = (ra, ha)"
    by (cases "add_loop F P base [] [] h")
  from add_loop_frame [OF al extends_refl fresh_Nil]
  have ea: "extends h ha" and fa: "\<And>ps acc'. ra = Inr (ps, acc') \<Longrightarrow> fresh h acc'"
    by auto
  have "(h1 = h \<or> h1 = ha) \<and> (\<forall>refs. r \<noteq> Inr (Some refs))
        \<or> (\<exists>d ps refs0. h1 = ha @ [d] \<and> ra = Inr (ps, refs0)
              \<and> r = Inr (Some (refs0 @ [length ha])))"
    using assms al
    by (auto simp: add_branch_def new_dict_def simp del: place_loop.simps
             split: prod.splits sum.splits option.splits)
  then show ?thesis
  proof (elim disjE conjE exE)
    assume "h1 = h" "\<forall>refs. r \<noteq> Inr (Some refs)"
    then show ?thesis by (simp add: extends_refl)
  next
    assume "h1 = ha" "\<forall>refs. r \<noteq> Inr (Some refs)"
    then show ?thesis using ea by simp
  next
    fix d ps refs0
    assume *: "h1 = ha @ [d]" "ra = Inr (ps, refs0)" "r = Inr (Some (refs0 @ [length ha]))"
    have "extends h (ha @ [d])" using ea by (rule extends_append)
    moreover have "fresh h (refs0 @ [length ha])" using fa [OF *(2)] ea by (rule fresh_snoc)
    ultimately show ?thesis using * by simp
  qed
qed


lemma change_objects_frame:
  assumes "change_objects F P A S base ct h g = Some (r, h1, g1)"
  shows "extends h h1 \<and> (\<forall>refs. r = Inr (Some refs) \<longrightarrow> fresh h refs)"
proof -
  consider (color) "ct = ''color''" | (material) "ct = ''material''" | (drop) "ct = ''drop''"
    | (add) "ct = ''add''" | (same) "ct = ''same''"
    | (other) "ct \<noteq> ''color''" "ct \<noteq> ''material''" "ct \<noteq> ''drop''" "ct \<noteq> ''add''"
        "ct \<noteq> ''same''"
    by blast
  then show ?thesis
  proof cases
    case color
    obtain ri g0 where ri: "randint 0 (int (length base) - 1) g = (ri, g0)"
      by (cases "randint 0 (int (length base) - 1) g")
    show ?thesis
    proof (cases ri)
      case (Inl e)
      with assms color ri show ?thesis
        by (auto simp: change_objects_def extends_refl)
    next
      case (Inr k)
      with assms color ri obtain r0 where
        c: "color_loop P k (enumerate 0 base) [] h g0 = Some (r0, h1, g1)"
        and r: "r = map_sum id Some r0"
        by (auto simp: change_objects_def)
      from color_loop_frame [OF c extends_refl fresh_Nil] r show ?thesis
        by (cases r0) auto
    qed
  next
    case material
    obtain ri g0 where ri: "randint 0 (int (length base) - 1) g = (ri, g0)"
      by (cases "randint 0 (int (length base) - 1) g")
    show ?thesis
    proof (cases ri)
      case (Inl e)
      with assms material ri show ?thesis
        by (auto simp: change_objects_def extends_refl)
    next
      case (Inr k)
      with assms material ri obtain r0 where
        c: "material_loop P k (enumerate 0 base) [] h g0 = Some (r0, h1, g1)"
        and r: "r = map_sum id Some r0"
        by (auto simp: change_objects_def)
      from material_loop_frame [OF c extends_refl fresh_Nil] r show ?thesis
        by (cases r0) auto
    qed
  next
    case drop
    obtain ri g0 where ri: "randint 0 (int (length base) - 1) g = (ri, g0)"
      by (cases "randint 0 (int (length base) - 1) g")
    show ?thesis
    proof (cases ri)
      case (Inl e)
      with assms drop ri show ?thesis
        by (auto simp: change_objects_def extends_refl)
    next
      case (Inr k)
      obtain refs hd where d: "drop_loop k (enumerate 0 base) [] h = (refs, hd)"
        by (cases "drop_loop k (enumerate 0 base) [] h")
      with Inr assms drop ri have "r = Inr (Some refs)" "h1 = hd"
        by (simp_all add: change_objects_def)
      with drop_loop_frame [OF d extends_refl fresh_Nil] show ?thesis by simp
    qed
  next
    case add
    with assms have "add_branch F P A S base h g = (r, h1, g1)"
      by (simp add: change_objects_def)
    then show ?thesis by (rule add_branch_frame)
  next
    case same
    obtain refs hd where d: "same_loop base [] h = (refs, hd)"
      by (cases "same_loop base [] h")
    with assms same have "r = Inr (Some refs)" "h1 = hd"
      by (simp_all add: change_objects_def)
    with same_loop_frame [OF d extends_refl fresh_Nil] show ?thesis by simp
  next
    case other
    with assms have "r = Inr (Some [])" "h1 = h"
      by (auto simp: change_objects_def split: if_splits)
    then show ?thesis by (simp add: extends_refl fresh_Nil)
  qed
qed

lemma apply_change_extends:
  assumes "apply_change F E P A S default_objects change_type h g = Some (res, h', g')"
  shows "extends h h'"
proof -
  from assms obtain r h1 g1 where
    c: "change_objects F P A S default_objects change_type h g = Some (r, h1, g1)"
    by (auto simp: apply_change_def split: option.splits)
  from change_objects_frame [OF c]
  have e: "extends h h1" and f: "\<And>refs. r = Inr (Some refs) \<Longrightarrow> fresh h refs"
    by auto
  show ?thesis
  proof (cases "\<exists>refs. r = Inr (Some refs)")
    case False
    with assms c have "h' = h1"
      by (auto simp: apply_change_def split: sum.splits option.splits)
    with e show ?thesis by simp
  next
    case True
    then obtain refs where r: "r = Inr (Some refs)" by blast
    obtain rb h2 where rl: "render_loop F E P refs [] h1 = (rb, h2)"
      by (cases "render_loop F E P refs [] h1")
    from assms c r rl have "h' = h2"
      by (auto simp: apply_change_def split: sum.splits prod.splits if_splits)
    with render_loop_frame [OF rl e f [OF r]] show ?thesis by simp
  qed
qed

text \<open>
  C10. Whatever the change type and whether the call succeeds, fails or raises, every
  cell the store had before the call of \<^verbatim>\<open>apply_change\<close> is the same after it: the store
  has only grown. In particular every object of \<^verbatim>\<open>default_objects\<close> is unchanged; the
  new pixel coordinates are written to cells allocated by the call. (The list
  \<^verbatim>\<open>default_objects\<close> itself is only read by the code, never assigned to or appended to:
  it is a value here.)
\<close>
theorem apply_change_never_mutates_base:
  assumes "apply_change F E P A S default_objects change_type h g = Some (res, h', g')"
  shows "length h \<le> length h' \<and> take (length h) h' = h
         \<and> (\<forall>obj \<in> set default_objects. obj < length h \<longrightarrow> h' ! obj = h ! obj)"
proof -
  from apply_change_extends [OF assms] obtain ext where "h' = h @ ext"
    by (auto simp: extends_def)
  then show ?thesis by (simp add: nth_append)
qed


theorem apply_change_never_mutates_base_witness:
  "apply_change
     \<lparr>fl_add = (+), fl_sub = (-), fl_mul = (*), fl_div = (/), fl_sqrt = sqrt\<rparr>
     \<lparr>render_shadeless = (\<lambda>objs g. ([1, 0, 0, 1, 0, 0, 0, 1], g)),
      obj_location = (\<lambda>name r xy theta. (fst xy, snd xy, r)),
      get_camera_coords = (\<lambda>v. (9, 9, 9))\<rparr>
     \<lparr>color_name_to_rgba = [(''red'', (1, 0, 0, 1))],
      material_mapping = [(''Rubber'', ''rubber'')],
      object_mapping = [(''Sphere'', ''sphere'')],
      size_mapping = [(''large'', 1 / 2)], shape_color_combos = None\<rparr>
     \<lparr>min_dist = 1 / 4, margin = 2 / 5, max_retries = 50, min_pixels_per_object = 1\<rparr>
     \<lparr>directions = set_directions (0, 1, 0) (- 1, 0, 0) (0, 0, 1), objects = []\<rparr>
     [0] ''same''
     [\<lparr>shape = ''sphere'', size_name = ''large'', material = ''rubber'',
       coords3d = (0, 0, 1 / 2), rotation = 0, pixel_coords = Some (1, 2, 3),
       color = ''red''\<rparr>]
     \<lparr>ints = (\<lambda>n. 0), ipos = 0, floats = (\<lambda>n. 0), fpos = 0\<rparr>
   = Some (Inr (Some ([1],
             [\<lparr>b_name = ''Sphere'', b_scale = 1 / 2, b_xy = (0, 0), b_theta = 0,
               b_material = ''Rubber'', b_rgba = (1, 0, 0, 1)\<rparr>])),
           [\<lparr>shape = ''sphere'', size_name = ''large'', material = ''rubber'',
             coords3d = (0, 0, 1 / 2), rotation = 0, pixel_coords = Some (1, 2, 3),
             color = ''red''\<rparr>,
            \<lparr>shape = ''sphere'', size_name = ''large'', material = ''rubber'',
             coords3d = (0, 0, 1 / 2), rotation = 0, pixel_coords = Some (9, 9, 9),
             color = ''red''\<rparr>],
           \<lparr>ints = (\<lambda>n. 0), ipos = 0, floats = (\<lambda>n. 0), fpos = 0\<rparr>)
   \<and> take (length [\<lparr>shape = ''sphere'', size_name = ''large'', material = ''rubber'',
             coords3d = (0 :: real, 0 :: real, 1 / 2 :: real), rotation = 0,
             pixel_coords = Some (1, 2, 3), color = ''red''\<rparr>])
           [\<lparr>shape = ''sphere'', size_name = ''large'', material = ''rubber'',
             coords3d = (0, 0, 1 / 2), rotation = 0, pixel_coords = Some (1, 2, 3),
             color = ''red''\<rparr>,
            \<lparr>shape = ''sphere'', size_name = ''large'', material = ''rubber'',
             coords3d = (0, 0, 1 / 2), rotation = 0, pixel_coords = Some (9, 9, 9),
             color = ''red''\<rparr>]
       = [\<lparr>shape = ''sphere'', size_name = ''large'', material = ''rubber'',
             coords3d = (0, 0, 1 / 2), rotation = 0, pixel_coords = Some (1, 2, 3),
             color = ''red''\<rparr>]"
proof -
  have run: "apply_change
     \<lparr>fl_add = (+), fl_sub = (-), fl_mul = (*), fl_div = (/), fl_sqrt = sqrt\<rparr>
     \<lparr>render_shadeless = (\<lambda>objs g. ([1, 0, 0, 1, 0, 0, 0, 1], g)),
      obj_location = (\<lambda>name r xy theta. (fst xy, snd xy, r)),
      get_camera_coords = (\<lambda>v. (9, 9, 9))\<rparr>
     \<lparr>color_name_to_rgba = [(''red'', (1, 0, 0, 1))],
      material_mapping = [(''Rubber'', ''rubber'')],
      object_mapping = [(''Sphere'', ''sphere'')],
      size_mapping = [(''large'', 1 / 2)], shape_color_combos = None\<rparr>
     \<lparr>min_dist = 1 / 4, margin = 2 / 5, max_retries = 50, min_pixels_per_object = 1\<rparr>
     \<lparr>directions = set_directions (0, 1, 0) (- 1, 0, 0) (0, 0, 1), objects = []\<rparr>
     [0] ''same''
     [\<lparr>shape = ''sphere'', size_name = ''large'', material = ''rubber'',
       coords3d = (0, 0, 1 / 2), rotation = 0, pixel_coords = Some (1, 2, 3),
       color = ''red''\<rparr>]
     \<lparr>ints = (\<lambda>n. 0), ipos = 0, floats = (\<lambda>n. 0), fpos = 0\<rparr>
   = Some (Inr (Some ([1],
             [\<lparr>b_name = ''Sphere'', b_scale = 1 / 2, b_xy = (0, 0), b_theta = 0,
               b_material = ''Rubber'', b_rgba = (1, 0, 0, 1)\<rparr>])),
           [\<lparr>shape = ''sphere'', size_name = ''large'', material = ''rubber'',
             coords3d = (0, 0, 1 / 2), rotation = 0, pixel_coords = Some (1, 2, 3),
             color = ''red''\<rparr>,
            \<lparr>shape = ''sphere'', size_name = ''large'', material = ''rubber'',
             coords3d = (0, 0, 1 / 2), rotation = 0, pixel_coords = Some (9, 9, 9),
             color = ''red''\<rparr>],
           \<lparr>ints = (\<lambda>n. 0), ipos = 0, floats = (\<lambda>n. 0), fpos = 0\<rparr>)"
    by (simp add: apply_change_def change_objects_def deepcopy_def render_object_def
          first_key_of_def first_val_of_def dict_get_def cube_adjust_def
          check_visibility_def check_pixels_def Counter_def most_common_def)
  from apply_change_never_mutates_base [OF run] run show ?thesis by simp
qed

section \<open>Properties of apply_change: the reserved change types\<close>

lemma change_objects_reserved:
  assumes "change_type \<in> {''shape'', ''switch'', ''random''}"
  shows "change_objects F P A S default_objects change_type h g = Some (Inr (Some []), h, g)"
proof -
  from assms consider "change_type = ''shape''" | "change_type = ''switch''"
    | "change_type = ''random''" by blast
  then show ?thesis
    by cases (simp_all add: change_objects_def)
qed

text \<open>
  C9. The branches \<^verbatim>\<open>'shape'\<close>, \<^verbatim>\<open>'switch'\<close> and \<^verbatim>\<open>'random'\<close> are \<^verbatim>\<open>pass\<close>: the call
  copies nothing, edits nothing and renders nothing. It returns what the visibility check
  of the empty list of Blender objects decides, the success triple with an empty object
  list and an empty list of Blender objects or the failure triple, and raises only what
  that check raises; the store is unchanged. No signal says that the change type is not
  implemented.
\<close>
theorem apply_change_reserved:
  assumes "change_type \<in> {''shape'', ''switch'', ''random''}"
  shows "apply_change F E P A S default_objects change_type h g =
           Some (case fst (check_visibility E [] (min_pixels_per_object A) g) of
                   Inl e \<Rightarrow> Inl e
                 | Inr all_visible \<Rightarrow> if all_visible then Inr (Some ([],
                   [])) else Inr None,
                 h, snd (check_visibility E [] (min_pixels_per_object A) g))"
  by (simp add: apply_change_def change_objects_reserved [OF assms]
           split: prod.splits sum.splits)

theorem apply_change_reserved_witness:
  "apply_change \<lparr>fl_add = (+), fl_sub = (-), fl_mul = (*), fl_div = (/),
    fl_sqrt = sqrt\<rparr>
     \<lparr>render_shadeless = (\<lambda>objs g. ([1, 0, 0, 1, 0, 0, 0, 1], g)),
       obj_location = (\<lambda>name r xy theta. (fst xy, snd xy, r)),
         get_camera_coords = (\<lambda>v. (9, 9, 9))\<rparr>
     \<lparr>color_name_to_rgba = [(''red'', (1, 0, 0, 1))], material_mapping = [(''Rubber'',
       ''rubber'')], object_mapping = [(''Sphere'', ''sphere'')], size_mapping = [(''large'',
         1 / 2)], shape_color_combos = None\<rparr>
     \<lparr>min_dist = 1 / 4, margin = 2 / 5, max_retries = 50, min_pixels_per_object = 1\<rparr>
     \<lparr>directions = set_directions (0, 1, 0) (- 1, 0, 0) (0, 0, 1), objects = []\<rparr>
     [0] ''switch''
     [\<lparr>shape = ''sphere'', size_name = ''large'', material = ''rubber'', coords3d = (0, 0,
       1 / 2), rotation = 0, pixel_coords = Some (1, 2, 3), color = ''red''\<rparr>]
     \<lparr>ints = (\<lambda>n. 0), ipos = 0, floats = (\<lambda>n. 0), fpos = 0\<rparr>
   = Some (Inr None,
       [\<lparr>shape = ''sphere'', size_name = ''large'', material = ''rubber'', coords3d = (0,
         0, 1 / 2), rotation = 0, pixel_coords = Some (1, 2, 3), color = ''red''\<rparr>],
       \<lparr>ints = (\<lambda>n. 0), ipos = 0, floats = (\<lambda>n. 0), fpos = 0\<rparr>)"
proof -
  have "''switch'' \<in> {''shape'', ''switch'', ''random''}" by simp
  from apply_change_reserved [OF this] show ?thesis
    by (simp add: check_visibility_def check_pixels_def Counter_def most_common_def)
qed

text \<open>
  The three reserved change types on a one-object base, with an image of one colour and a
  threshold of one pixel: each call returns the success triple, with empty lists.
\<close>
theorem apply_change_reserved_silent:
  "apply_change \<lparr>fl_add = (+), fl_sub = (-), fl_mul = (*), fl_div = (/),
    fl_sqrt = sqrt\<rparr>
     \<lparr>render_shadeless = (\<lambda>objs g. ([0, 0, 0, 1], g)),
       obj_location = (\<lambda>name r xy theta. (fst xy, snd xy, r)),
         get_camera_coords = (\<lambda>v. (9, 9, 9))\<rparr>
     \<lparr>color_name_to_rgba = [(''red'', (1, 0, 0, 1))], material_mapping = [(''Rubber'',
       ''rubber'')], object_mapping = [(''Sphere'', ''sphere'')], size_mapping = [(''large'',
         1 / 2)], shape_color_combos = None\<rparr>
     \<lparr>min_dist = 1 / 4, margin = 2 / 5, max_retries = 50, min_pixels_per_object = 1\<rparr>
     \<lparr>directions = set_directions (0, 1, 0) (- 1, 0, 0) (0, 0, 1), objects = []\<rparr>
     [0] ''shape''
     [\<lparr>shape = ''sphere'', size_name = ''large'', material = ''rubber'', coords3d = (0, 0,
       1 / 2), rotation = 0, pixel_coords = Some (1, 2, 3), color = ''red''\<rparr>]
     \<lparr>ints = (\<lambda>n. 0), ipos = 0, floats = (\<lambda>n. 0), fpos = 0\<rparr>
   = Some (Inr (Some ([], [])),
       [\<lparr>shape = ''sphere'', size_name = ''large'', material = ''rubber'', coords3d = (0,
         0, 1 / 2), rotation = 0, pixel_coords = Some (1, 2, 3), color = ''red''\<rparr>],
       \<lparr>ints = (\<lambda>n. 0), ipos = 0, floats = (\<lambda>n. 0), fpos = 0\<rparr>)
   \<and> apply_change \<lparr>fl_add = (+), fl_sub = (-), fl_mul = (*), fl_div = (/),
     fl_sqrt = sqrt\<rparr>
     \<lparr>render_shadeless = (\<lambda>objs g. ([0, 0, 0, 1], g)),
       obj_location = (\<lambda>name r xy theta. (fst xy, snd xy, r)),
         get_camera_coords = (\<lambda>v. (9, 9, 9))\<rparr>
     \<lparr>color_name_to_rgba = [(''red'', (1, 0, 0, 1))], material_mapping = [(''Rubber'',
       ''rubber'')], object_mapping = [(''Sphere'', ''sphere'')], size_mapping = [(''large'',
         1 / 2)], shape_color_combos = None\<rparr>
     \<lparr>min_dist = 1 / 4, margin = 2 / 5, max_retries = 50, min_pixels_per_object = 1\<rparr>
     \<lparr>directions = set_directions (0, 1, 0) (- 1, 0, 0) (0, 0, 1), objects = []\<rparr>
     [0] ''switch''
     [\<lparr>shape = ''sphere'', size_name = ''large'', material = ''rubber'', coords3d = (0, 0,
       1 / 2), rotation = 0, pixel_coords = Some (1, 2, 3), color = ''red''\<rparr>]
     \<lparr>ints = (\<lambda>n. 0), ipos = 0, floats = (\<lambda>n. 0), fpos = 0\<rparr>
   = Some (Inr (Some ([], [])),
       [\<lparr>shape = ''sphere'', size_name = ''large'', material = ''rubber'', coords3d = (0,
         0, 1 / 2), rotation = 0, pixel_coords = Some (1, 2, 3), color = ''red''\<rparr>],
       \<lparr>ints = (\<lambda>n. 0), ipos = 0, floats = (\<lambda>n. 0), fpos = 0\<rparr>)
   \<and> apply_change \<lparr>fl_add = (+), fl_sub = (-), fl_mul = (*), fl_div = (/),
     fl_sqrt = sqrt\<rparr>
     \<lparr>render_shadeless = (\<lambda>objs g. ([0, 0, 0, 1], g)),
       obj_location = (\<lambda>name r xy theta. (fst xy, snd xy, r)),
         get_camera_coords = (\<lambda>v. (9, 9, 9))\<rparr>
     \<lparr>color_name_to_rgba = [(''red'', (1, 0, 0, 1))], material_mapping = [(''Rubber'',
       ''rubber'')], object_mapping = [(''Sphere'', ''sphere'')], size_mapping = [(''large'',
         1 / 2)], shape_color_combos = None\<rparr>
     \<lparr>min_dist = 1 / 4, margin = 2 / 5, max_retries = 50, min_pixels_per_object = 1\<rparr>
     \<lparr>directions = set_directions (0, 1, 0) (- 1, 0, 0) (0, 0, 1), objects = []\<rparr>
     [0] ''random''
     [\<lparr>shape = ''sphere'', size_name = ''large'', material = ''rubber'', coords3d = (0, 0,
       1 / 2), rotation = 0, pixel_coords = Some (1, 2, 3), color = ''red''\<rparr>]
     \<lparr>ints = (\<lambda>n. 0), ipos = 0, floats = (\<lambda>n. 0), fpos = 0\<rparr>
   = Some (Inr (Some ([], [])),
       [\<lparr>shape = ''sphere'', size_name = ''large'', material = ''rubber'', coords3d = (0,
         0, 1 / 2), rotation = 0, pixel_coords = Some (1, 2, 3), color = ''red''\<rparr>],
       \<lparr>ints = (\<lambda>n. 0), ipos = 0, floats = (\<lambda>n. 0), fpos = 0\<rparr>)"
  by (simp add: apply_change_def change_objects_def check_visibility_def check_pixels_def
        Counter_def most_common_def)

section \<open>Properties of apply_change: the change type same\<close>

lemma same_loop_closed:
  assumes "\<forall>obj \<in> set objs. obj < length h"
  shows "same_loop objs acc h =
           (acc @ [length h..<length h + length objs], h @ map ((!) h) objs)"
  using assms
proof (induction objs arbitrary: acc h)
  case Nil
  then show ?case by simp
next
  case (Cons obj rest)
  have v: "\<forall>a \<in> set rest. a < length (h @ [h ! obj])"
    using Cons.prems by (auto simp: less_Suc_eq)
  have m: "map ((!) (h @ [h ! obj])) rest = map ((!) h) rest"
    using Cons.prems by (simp add: nth_append)
  have u: "[length h..<length h + length (obj # rest)]
             = length h # [length (h @ [h ! obj])..<length (h @ [h ! obj]) + length rest]"
    by (subst upt_rec) simp
  show ?case
    unfolding u by (simp add: deepcopy_def Cons.IH [OF v] m)
qed

text \<open>Rendering writes pixel coordinates only, and keeps the size of the store.\<close>
lemma render_loop_pixels:
  "render_loop F E P objs nb h = (r, h') \<Longrightarrow>
     length h' = length h \<and> (\<forall>a. h' ! a = (h ! a)\<lparr>pixel_coords :=
       pixel_coords (h' ! a)\<rparr>)"
proof (induction objs arbitrary: nb h)
  case Nil
  then show ?case by simp
next
  case (Cons obj rest)
  show ?case
  proof (cases "render_object F E P (h ! obj)")
    case (Inl e)
    with Cons.prems show ?thesis by simp
  next
    case (Inr bp)
    obtain b pc where bp: "bp = (b, pc)" by (cases bp)
    let ?h1 = "h[obj := (h ! obj)\<lparr>pixel_coords := Some pc\<rparr>]"
    from Cons.prems Inr bp have "render_loop F E P rest (nb @ [b]) ?h1 = (r, h')" by simp
    from Cons.IH [OF this]
    have l: "length h' = length ?h1"
      and p: "\<And>a. h' ! a = (?h1 ! a)\<lparr>pixel_coords := pixel_coords (h' ! a)\<rparr>"
      by auto
    have q: "\<And>a. \<exists>x. ?h1 ! a = (h ! a)\<lparr>pixel_coords := x\<rparr>"
    proof -
      fix a
      show "\<exists>x. ?h1 ! a = (h ! a)\<lparr>pixel_coords := x\<rparr>"
      proof (cases "a = obj \<and> obj < length h")
        case True
        then show ?thesis by auto
      next
        case False
        then have "?h1 ! a = h ! a" by (cases "a = obj") (auto simp: list_update_beyond)
        then have "?h1 ! a = (h ! a)\<lparr>pixel_coords := pixel_coords (h ! a)\<rparr>" by simp
        then show ?thesis by blast
      qed
    qed
    have "\<And>a. h' ! a = (h ! a)\<lparr>pixel_coords := pixel_coords (h' ! a)\<rparr>"
    proof -
      fix a
      from q [of a] obtain x where "?h1 ! a = (h ! a)\<lparr>pixel_coords := x\<rparr>" by blast
      with p [of a] show "h' ! a = (h ! a)\<lparr>pixel_coords := pixel_coords (h' ! a)\<rparr>"
        by simp
    qed
    with l show ?thesis by simp
  qed
qed

text \<open>
  C6. A successful \<^verbatim>\<open>apply_change\<close> with change type \<^verbatim>\<open>'same'\<close>, on a base list whose
  references point into the store, returns as many objects as the base has; its \<open>i\<close>-th
  object is the \<open>i\<close>-th base object with at most the pixel coordinates changed, so the
  list (and with it the multiset) of the tuples of shape, size, material, colour, rotation
  and 3d coordinates is the one of the base.
\<close>
theorem apply_change_same:
  assumes "apply_change F E P A S default_objects ''same'' h g =
             Some (Inr (Some (new_objects, new_blend_objects)), h', g')"
    and "\<forall>obj \<in> set default_objects. obj < length h"
  shows "length new_objects = length default_objects
       \<and> (\<forall>i < length default_objects.
            h' ! (new_objects ! i) =
              (h ! (default_objects ! i))
                \<lparr>pixel_coords := pixel_coords (h' ! (new_objects ! i))\<rparr>)
       \<and> map (\<lambda>obj. (shape (h' ! obj), size_name (h' ! obj), material (h' ! obj),
                       color (h' ! obj), rotation (h' ! obj), coords3d (h' ! obj)))
            new_objects
          = map (\<lambda>obj. (shape (h ! obj), size_name (h ! obj), material (h ! obj),
                       color (h ! obj), rotation (h ! obj), coords3d (h ! obj)))
              default_objects"
proof -
  let ?h1 = "h @ map ((!) h) default_objects"
  let ?new = "[length h..<length h + length default_objects]"
  have c: "change_objects F P A S default_objects ''same'' h g = Some (Inr (Some ?new), ?h1, g)"
    by (simp add: change_objects_def same_loop_closed [OF assms(2)])
  obtain rb h2 where rl: "render_loop F E P ?new [] ?h1 = (rb, h2)"
    by (cases "render_loop F E P ?new [] ?h1")
  from assms(1) have n: "new_objects = ?new" and h': "h' = h2"
    unfolding apply_change_def c using rl
    by (auto split: sum.splits prod.splits if_splits)
  from render_loop_pixels [OF rl]
  have p: "\<And>a. h2 ! a = (?h1 ! a)\<lparr>pixel_coords := pixel_coords (h2 ! a)\<rparr>" by
    auto
  have len: "length new_objects = length default_objects" by (simp add: n)
  have cell: "h' ! (new_objects ! i) =
                (h ! (default_objects ! i))\<lparr>pixel_coords := pixel_coords (h' !
                  (new_objects ! i))\<rparr>"
    if "i < length default_objects" for i
  proof -
    from that have "new_objects ! i = length h + i" by (simp add: n)
    moreover from that have "?h1 ! (length h + i) = h ! (default_objects ! i)"
      by (simp add: nth_append)
    ultimately show ?thesis using p [of "length h + i"] by (simp add: h')
  qed
  have "map (\<lambda>obj. (shape (h' ! obj), size_name (h' ! obj), material (h' ! obj),
                       color (h' ! obj), rotation (h' ! obj), coords3d (h' ! obj)))
            new_objects
          = map (\<lambda>obj. (shape (h ! obj), size_name (h ! obj), material (h ! obj),
                       color (h ! obj), rotation (h ! obj), coords3d (h ! obj)))
              default_objects"
  proof (rule nth_equalityI)
    show "length (map (\<lambda>obj. (shape (h' ! obj), size_name (h' ! obj), material (h' ! obj),
                       color (h' ! obj), rotation (h' ! obj), coords3d (h' ! obj)))
            new_objects)
          = length (map (\<lambda>obj. (shape (h ! obj), size_name (h ! obj), material (h ! obj),
                       color (h ! obj), rotation (h ! obj), coords3d (h ! obj)))
              default_objects)"
      by (simp add: len)
  next
    fix i
    assume "i < length (map (\<lambda>obj. (shape (h' ! obj), size_name (h' ! obj),
      material (h' ! obj),
                       color (h' ! obj), rotation (h' ! obj), coords3d (h' ! obj)))
            new_objects)"
    then have i: "i < length default_objects" by (simp add: len)
    have f: "shape (h' ! (new_objects ! i)) = shape (h ! (default_objects ! i))"
      "size_name (h' ! (new_objects ! i)) = size_name (h ! (default_objects ! i))"
      "material (h' ! (new_objects ! i)) = material (h ! (default_objects ! i))"
      "color (h' ! (new_objects ! i)) = color (h ! (default_objects ! i))"
      "rotation (h' ! (new_objects ! i)) = rotation (h ! (default_objects ! i))"
      "coords3d (h' ! (new_objects ! i)) = coords3d (h ! (default_objects ! i))"
      by (subst cell [OF i], simp)+
    show "map (\<lambda>obj. (shape (h' ! obj), size_name (h' ! obj), material (h' ! obj),
                       color (h' ! obj), rotation (h' ! obj), coords3d (h' ! obj)))
            new_objects ! i
          = map (\<lambda>obj. (shape (h ! obj), size_name (h ! obj), material (h ! obj),
                       color (h ! obj), rotation (h ! obj), coords3d (h ! obj)))
              default_objects ! i"
      using i len f by simp
  qed
  with len cell show ?thesis by blast
qed

theorem apply_change_same_witness:
  "apply_change \<lparr>fl_add = (+), fl_sub = (-), fl_mul = (*), fl_div = (/),
    fl_sqrt = sqrt\<rparr>
     \<lparr>render_shadeless = (\<lambda>objs g. ([1, 0, 0, 1, 0, 1, 0, 1, 0, 0, 0, 1], g)),
       obj_location = (\<lambda>name r xy theta. (fst xy, snd xy, r)),
         get_camera_coords = (\<lambda>v. (9, 9, 9))\<rparr>
     \<lparr>color_name_to_rgba = [(''red'', (1, 0, 0, 1))], material_mapping = [(''Rubber'',
       ''rubber'')], object_mapping = [(''Sphere'', ''sphere'')], size_mapping = [(''large'',
         1 / 2)], shape_color_combos = None\<rparr>
     \<lparr>min_dist = 1 / 4, margin = 2 / 5, max_retries = 50, min_pixels_per_object = 1\<rparr>
     \<lparr>directions = set_directions (0, 1, 0) (- 1, 0, 0) (0, 0, 1), objects = []\<rparr>
     [0, 1] ''same''
     [\<lparr>shape = ''sphere'', size_name = ''large'', material = ''rubber'', coords3d = (0, 0,
       1 / 2), rotation = 0, pixel_coords = Some (1, 2, 3), color = ''red''\<rparr>,
      \<lparr>shape = ''sphere'', size_name = ''large'', material = ''rubber'', coords3d = (2, 2,
        1 / 2), rotation = 0, pixel_coords = Some (4, 5, 6), color = ''red''\<rparr>]
     \<lparr>ints = (\<lambda>n. 0), ipos = 0, floats = (\<lambda>n. 0), fpos = 0\<rparr>
   = Some (Inr (Some ([2, 3],
        [\<lparr>b_name = ''Sphere'', b_scale = 1 / 2, b_xy = (0, 0), b_theta = 0,
          b_material = ''Rubber'', b_rgba = (1, 0, 0, 1)\<rparr>,
         \<lparr>b_name = ''Sphere'', b_scale = 1 / 2, b_xy = (2, 2), b_theta = 0,
           b_material = ''Rubber'', b_rgba = (1, 0, 0, 1)\<rparr>])),
       [\<lparr>shape = ''sphere'', size_name = ''large'', material = ''rubber'', coords3d = (0,
         0, 1 / 2), rotation = 0, pixel_coords = Some (1, 2, 3), color = ''red''\<rparr>,
        \<lparr>shape = ''sphere'', size_name = ''large'', material = ''rubber'', coords3d = (2,
          2, 1 / 2), rotation = 0, pixel_coords = Some (4, 5, 6), color = ''red''\<rparr>,
        \<lparr>shape = ''sphere'', size_name = ''large'', material = ''rubber'', coords3d = (0,
          0, 1 / 2), rotation = 0, pixel_coords = Some (9, 9, 9), color = ''red''\<rparr>,
        \<lparr>shape = ''sphere'', size_name = ''large'', material = ''rubber'', coords3d = (2,
          2, 1 / 2), rotation = 0, pixel_coords = Some (9, 9, 9), color = ''red''\<rparr>],
       \<lparr>ints = (\<lambda>n. 0), ipos = 0, floats = (\<lambda>n. 0), fpos = 0\<rparr>)
   \<and> length [2 :: nat, 3] = length [0 :: nat, 1]
   \<and> shape ([\<lparr>shape = ''sphere'', size_name = ''large'', material = ''rubber'',
     coords3d = (0, 0, 1 / 2), rotation = 0, pixel_coords = Some (1, 2, 3),
       color = ''red''\<rparr>,
        \<lparr>shape = ''sphere'', size_name = ''large'', material = ''rubber'', coords3d = (2,
          2, 1 / 2), rotation = 0, pixel_coords = Some (4, 5, 6), color = ''red''\<rparr>,
        \<lparr>shape = ''sphere'', size_name = ''large'', material = ''rubber'', coords3d = (0,
          0, 1 / 2), rotation = 0, pixel_coords = Some (9, 9, 9), color = ''red''\<rparr>,
        \<lparr>shape = ''sphere'', size_name = ''large'', material = ''rubber'', coords3d = (2,
          2, 1 / 2), rotation = 0, pixel_coords = Some (9, 9, 9),
            color = ''red''\<rparr>] ! 3) = ''sphere''"
proof -
  have run: "apply_change \<lparr>fl_add = (+), fl_sub = (-), fl_mul = (*), fl_div = (/),
    fl_sqrt = sqrt\<rparr>
     \<lparr>render_shadeless = (\<lambda>objs g. ([1, 0, 0, 1, 0, 1, 0, 1, 0, 0, 0, 1], g)),
       obj_location = (\<lambda>name r xy theta. (fst xy, snd xy, r)),
         get_camera_coords = (\<lambda>v. (9, 9, 9))\<rparr>
     \<lparr>color_name_to_rgba = [(''red'', (1, 0, 0, 1))], material_mapping = [(''Rubber'',
       ''rubber'')], object_mapping = [(''Sphere'', ''sphere'')], size_mapping = [(''large'',
         1 / 2)], shape_color_combos = None\<rparr>
     \<lparr>min_dist = 1 / 4, margin = 2 / 5, max_retries = 50, min_pixels_per_object = 1\<rparr>
     \<lparr>directions = set_directions (0, 1, 0) (- 1, 0, 0) (0, 0, 1), objects = []\<rparr>
     [0, 1] ''same''
     [\<lparr>shape = ''sphere'', size_name = ''large'', material = ''rubber'', coords3d = (0, 0,
       1 / 2), rotation = 0, pixel_coords = Some (1, 2, 3), color = ''red''\<rparr>,
      \<lparr>shape = ''sphere'', size_name = ''large'', material = ''rubber'', coords3d = (2, 2,
        1 / 2), rotation = 0, pixel_coords = Some (4, 5, 6), color = ''red''\<rparr>]
     \<lparr>ints = (\<lambda>n. 0), ipos = 0, floats = (\<lambda>n. 0), fpos = 0\<rparr>
   = Some (Inr (Some ([2, 3],
        [\<lparr>b_name = ''Sphere'', b_scale = 1 / 2, b_xy = (0, 0), b_theta = 0,
          b_material = ''Rubber'', b_rgba = (1, 0, 0, 1)\<rparr>,
         \<lparr>b_name = ''Sphere'', b_scale = 1 / 2, b_xy = (2, 2), b_theta = 0,
           b_material = ''Rubber'', b_rgba = (1, 0, 0, 1)\<rparr>])),
       [\<lparr>shape = ''sphere'', size_name = ''large'', material = ''rubber'', coords3d = (0,
         0, 1 / 2), rotation = 0, pixel_coords = Some (1, 2, 3), color = ''red''\<rparr>,
        \<lparr>shape = ''sphere'', size_name = ''large'', material = ''rubber'', coords3d = (2,
          2, 1 / 2), rotation = 0, pixel_coords = Some (4, 5, 6), color = ''red''\<rparr>,
        \<lparr>shape = ''sphere'', size_name = ''large'', material = ''rubber'', coords3d = (0,
          0, 1 / 2), rotation = 0, pixel_coords = Some (9, 9, 9), color = ''red''\<rparr>,
        \<lparr>shape = ''sphere'', size_name = ''large'', material = ''rubber'', coords3d = (2,
          2, 1 / 2), rotation = 0, pixel_coords = Some (9, 9, 9), color = ''red''\<rparr>],
       \<lparr>ints = (\<lambda>n. 0), ipos = 0, floats = (\<lambda>n. 0), fpos = 0\<rparr>)"
    by (simp add: apply_change_def change_objects_def deepcopy_def render_object_def
          first_key_of_def first_val_of_def dict_get_def cube_adjust_def
          check_visibility_def check_pixels_def Counter_def most_common_def)
  have v: "\<forall>obj \<in> set [0 :: nat, 1]. obj < length [\<lparr>shape = ''sphere'',
    size_name = ''large'', material = ''rubber'', coords3d = (0, 0, 1 / 2), rotation = 0,
      pixel_coords = Some (1, 2, 3), color = ''red''\<rparr>,
      \<lparr>shape = ''sphere'', size_name = ''large'', material = ''rubber'', coords3d = (2, 2,
        1 / 2), rotation = 0, pixel_coords = Some (4, 5, 6), color = ''red''\<rparr>]"
    by simp
  from apply_change_same [OF run v] run show ?thesis by simp
qed

section \<open>Properties of apply_change: the change type drop\<close>

lemma enumerate_index_ge: "(i, x) \<in> set (enumerate n xs) \<Longrightarrow> n \<le> i"
  by (simp add: in_set_enumerate_eq)

text \<open>Dropping the entry of index \<open>n + k\<close> from an enumeration that starts at
  \<open>n\<close>.\<close>
lemma filter_enumerate_drop:
  "k < length xs \<Longrightarrow>
     map snd (filter (\<lambda>(i,
       x). i \<noteq> n + k) (enumerate n xs)) = take k xs @ drop (Suc k) xs"
proof (induction xs arbitrary: n k)
  case Nil
  then show ?case by simp
next
  case (Cons x xs)
  show ?case
  proof (cases k)
    case 0
    have "filter (\<lambda>(i, x). i \<noteq> n) (enumerate (Suc n) xs) = enumerate (Suc n) xs"
      by (rule filter_True) (auto dest: enumerate_index_ge)
    with 0 show ?thesis by simp
  next
    case (Suc k')
    with Cons.prems have "k' < length xs" by simp
    from Cons.IH [OF this, of "Suc n"] Suc show ?thesis by simp
  qed
qed

text \<open>
  The loop of the \<^verbatim>\<open>'drop'\<close> branch copies every object and keeps the
    copies of the
  objects whose index is not the one drawn.
\<close>
lemma drop_loop_read:
  assumes "\<forall>obj \<in> set objs. obj < length h"
    and "drop_loop k (enumerate n objs) acc h = (new, h1)"
  shows "h1 = h @ map ((!) h) objs \<and>
         (\<exists>added. new = acc @ added
            \<and> map ((!) h1) added
                = map ((!) h) (map snd (filter (\<lambda>(i,
                  obj). int i \<noteq> k) (enumerate n objs))))"
  using assms
proof (induction objs arbitrary: n acc h)
  case Nil
  then show ?case by simp
next
  case (Cons obj rest)
  let ?h' = "h @ [h ! obj]"
  have v: "\<forall>a \<in> set rest. a < length ?h'" using Cons.prems(1) by (auto simp:
    less_Suc_eq)
  have m: "map ((!) ?h') rest = map ((!) h) rest"
    using Cons.prems(1) by (simp add: nth_append)
  have m2: "map ((!) ?h') (map snd (filter (\<lambda>(i,
    obj). int i \<noteq> k) (enumerate (Suc n) rest)))
            = map ((!) h) (map snd (filter (\<lambda>(i,
              obj). int i \<noteq> k) (enumerate (Suc n) rest)))"
  proof (rule map_cong [OF refl])
    fix a
    assume "a \<in> set (map snd (filter (\<lambda>(i,
      obj). int i \<noteq> k) (enumerate (Suc n) rest)))"
    then have "a \<in> set rest" by (auto simp: in_set_enumerate_eq)
    with Cons.prems(1) show "?h' ! a = h ! a" by (simp add: nth_append)
  qed
  show ?case
  proof (cases "int n = k")
    case True
    with Cons.prems(2) have "drop_loop k (enumerate (Suc n) rest) acc ?h' = (new, h1)"
      by (simp add: deepcopy_def)
    from Cons.IH [OF v this] obtain added where
      h1: "h1 = ?h' @ map ((!) ?h') rest" and n: "new = acc @ added"
      and r: "map ((!) h1) added
              = map ((!) ?h') (map snd (filter (\<lambda>(i,
                obj). int i \<noteq> k) (enumerate (Suc n) rest)))"
      by blast
    from h1 m have "h1 = h @ map ((!) h) (obj # rest)" by simp
    moreover from r m2 True
    have "map ((!) h1) added
            = map ((!) h) (map snd (filter (\<lambda>(i,
              obj). int i \<noteq> k) (enumerate n (obj # rest))))"
      by simp
    ultimately show ?thesis using n by blast
  next
    case False
    with Cons.prems(2)
    have "drop_loop k (enumerate (Suc n) rest) (acc @ [length h]) ?h' = (new, h1)"
      by (simp add: deepcopy_def)
    from Cons.IH [OF v this] obtain added where
      h1: "h1 = ?h' @ map ((!) ?h') rest" and n: "new = (acc @ [length h]) @ added"
      and r: "map ((!) h1) added
              = map ((!) ?h') (map snd (filter (\<lambda>(i,
                obj). int i \<noteq> k) (enumerate (Suc n) rest)))"
      by blast
    from h1 m have h1': "h1 = h @ map ((!) h) (obj # rest)" by simp
    then have "h1 ! length h = h ! obj" by (simp add: nth_append)
    with r m2 False
    have "map ((!) h1) (length h # added)
            = map ((!) h) (map snd (filter (\<lambda>(i,
              obj). int i \<noteq> k) (enumerate n (obj # rest))))"
      by simp
    moreover from n have "new = acc @ (length h # added)" by simp
    ultimately show ?thesis using h1' by blast
  qed
qed

lemma randint_index:
  "0 < n \<Longrightarrow> randint 0 (int n - 1) g = (Inr (int (ints g (ipos g) mod n)),
    g\<lparr>ipos := Suc (ipos g)\<rparr>)"
  by (simp add: randint_def randbelow_def)

lemma change_objects_drop:
  assumes "default_objects \<noteq> []" and "\<forall>obj \<in> set default_objects. obj < length
    h"
  shows "\<exists>new_objects.
      change_objects F P A S default_objects ''drop'' h g =
        Some (Inr (Some new_objects), h @ map ((!) h) default_objects,
          g\<lparr>ipos := Suc (ipos g)\<rparr>)
      \<and> map ((!) (h @ map ((!) h) default_objects)) new_objects =
          map ((!) h)
            (take (ints g (ipos g) mod length default_objects) default_objects
               @ drop (Suc (ints g (ipos g) mod length default_objects)) default_objects)"
proof -
  let ?k = "ints g (ipos g) mod length default_objects"
  have n: "0 < length default_objects" using assms(1) by simp
  then have k: "?k < length default_objects" by simp
  obtain new h1 where d: "drop_loop (int ?k) (enumerate 0 default_objects) [] h = (new, h1)"
    by (cases "drop_loop (int ?k) (enumerate 0 default_objects) [] h")
  from drop_loop_read [OF assms(2) d]
  have h1: "h1 = h @ map ((!) h) default_objects"
    and r: "map ((!) h1) new
         = map ((!) h) (map snd (filter (\<lambda>(i,
           obj). int i \<noteq> int ?k) (enumerate 0 default_objects)))"
    by auto
  have "map snd (filter (\<lambda>(i, obj). int i \<noteq> int ?k) (enumerate 0 default_objects))
          = take ?k default_objects @ drop (Suc ?k) default_objects"
    using filter_enumerate_drop [OF k, of 0] by simp
  then have "map ((!) h1) new
         = map ((!) h) (take ?k default_objects @ drop (Suc ?k) default_objects)"
    by (simp only: r)
  moreover have "change_objects F P A S default_objects ''drop'' h g =
        Some (Inr (Some new), h1, g\<lparr>ipos := Suc (ipos g)\<rparr>)"
    by (simp add: change_objects_def randint_index [OF n] d)
  ultimately show ?thesis unfolding h1 by blast
qed


text \<open>
  C5. On a non-empty base list whose references point into the store, the \<^verbatim>\<open>'drop'\<close>
  branch always builds its list: it draws an index \<open>k\<close> of the base with
  \<^verbatim>\<open>random.randint\<close>, copies the objects and keeps the copies of all but the \<open>k\<close>-th, in
  the order of the base, so the list has one object less than the base. The call returns;
  it returns the failure triple when the visibility check of the re-rendered variant
  fails, it raises when a property lookup of an object does, and otherwise it returns
  that list, whose objects are the remaining base objects up to their pixel coordinates.
\<close>
theorem apply_change_drop:
  assumes "default_objects \<noteq> []" and "\<forall>obj \<in> set default_objects. obj < length
    h"
  shows "\<exists>new_objects h1.
      change_objects F P A S default_objects ''drop'' h g =
        Some (Inr (Some new_objects), h1, g\<lparr>ipos := Suc (ipos g)\<rparr>)
      \<and> length new_objects = length default_objects - 1
      \<and> map ((!) h1) new_objects =
          map ((!) h)
            (take (ints g (ipos g) mod length default_objects) default_objects
               @ drop (Suc (ints g (ipos g) mod length default_objects)) default_objects)
      \<and> (\<exists>res h' g'.
            apply_change F E P A S default_objects ''drop'' h g = Some (res, h', g')
            \<and> (res = Inr None \<or> (\<exists>e. res = Inl e)
               \<or> (\<exists>new_blend_objects.
                    res = Inr (Some (new_objects, new_blend_objects))
                    \<and> map (\<lambda>obj. (h' ! obj)\<lparr>pixel_coords := None\<rparr>)
                      new_objects =
                        map (\<lambda>obj. (h ! obj)\<lparr>pixel_coords := None\<rparr>)
                          (take (ints g (ipos g) mod length default_objects) default_objects
                             @ drop (Suc (ints g (ipos g) mod length default_objects))
                                 default_objects))))"
proof -
  let ?k = "ints g (ipos g) mod length default_objects"
  let ?rest = "take ?k default_objects @ drop (Suc ?k) default_objects"
  let ?h1 = "h @ map ((!) h) default_objects"
  let ?g1 = "g\<lparr>ipos := Suc (ipos g)\<rparr>"
  from change_objects_drop [OF assms, of F P A S g] obtain new where
    c: "change_objects F P A S default_objects ''drop'' h g = Some (Inr (Some new), ?h1, ?g1)"
    and r: "map ((!) ?h1) new = map ((!) h) ?rest"
    by blast
  have k: "?k < length default_objects" using assms(1) by simp
  have "length (map ((!) ?h1) new) = length (map ((!) h) ?rest)" by (simp only: r)
  with k have len: "length new = length default_objects - 1" by simp
  obtain rb h2 where rl: "render_loop F E P new [] ?h1 = (rb, h2)"
    by (cases "render_loop F E P new [] ?h1")
  from render_loop_pixels [OF rl]
  have p: "\<And>a. h2 ! a = (?h1 ! a)\<lparr>pixel_coords := pixel_coords (h2 ! a)\<rparr>" by
    auto
  have "\<And>a. (h2 ! a)\<lparr>pixel_coords := None\<rparr> = (?h1 ! a)\<lparr>pixel_coords :=
    None\<rparr>"
  proof -
    fix a
    show "(h2 ! a)\<lparr>pixel_coords := None\<rparr> = (?h1 ! a)\<lparr>pixel_coords :=
      None\<rparr>"
      by (subst p) simp
  qed
  then have "map (\<lambda>obj. (h2 ! obj)\<lparr>pixel_coords := None\<rparr>) new
          = map (\<lambda>obj. obj\<lparr>pixel_coords := None\<rparr>) (map ((!) ?h1) new)"
    by simp
  also have "\<dots> = map (\<lambda>obj. (h ! obj)\<lparr>pixel_coords := None\<rparr>) ?rest"
    by (simp only: r) simp
  finally have q: "map (\<lambda>obj. (h2 ! obj)\<lparr>pixel_coords := None\<rparr>) new
          = map (\<lambda>obj. (h ! obj)\<lparr>pixel_coords := None\<rparr>) ?rest" .
  have "\<exists>res h' g'.
          apply_change F E P A S default_objects ''drop'' h g = Some (res, h', g')
          \<and> (res = Inr None \<or> (\<exists>e. res = Inl e)
             \<or> (\<exists>new_blend_objects.
                  res = Inr (Some (new, new_blend_objects))
                  \<and> map (\<lambda>obj. (h' ! obj)\<lparr>pixel_coords := None\<rparr>) new =
                      map (\<lambda>obj. (h ! obj)\<lparr>pixel_coords := None\<rparr>) ?rest))"
  proof (cases rb)
    case (Inl e)
    with c rl show ?thesis by (simp add: apply_change_def)
  next
    case (Inr nb)
    obtain rv g2 where cv: "check_visibility E nb (min_pixels_per_object A) ?g1 = (rv, g2)"
      by (cases "check_visibility E nb (min_pixels_per_object A) ?g1")
    show ?thesis
    proof (cases rv)
      case (Inl e)
      with Inr c rl cv show ?thesis by (simp add: apply_change_def)
    next
      case (Inr all_visible)
      with \<open>rb = Inr nb\<close> c rl cv q show ?thesis
        by (cases all_visible) (simp_all add: apply_change_def)
    qed
  qed
  with c len r show ?thesis by blast
qed

theorem apply_change_drop_witness:
  "apply_change \<lparr>fl_add = (+), fl_sub = (-), fl_mul = (*), fl_div = (/),
    fl_sqrt = sqrt\<rparr>
     \<lparr>render_shadeless = (\<lambda>objs g. ([1, 0, 0, 1, 0, 0, 0, 1], g)),
       obj_location = (\<lambda>name r xy theta. (fst xy, snd xy, r)),
         get_camera_coords = (\<lambda>v. (9, 9, 9))\<rparr>
     \<lparr>color_name_to_rgba = [(''red'', (1, 0, 0, 1))], material_mapping = [(''Rubber'',
       ''rubber'')], object_mapping = [(''Sphere'', ''sphere'')], size_mapping = [(''large'',
         1 / 2)], shape_color_combos = None\<rparr>
     \<lparr>min_dist = 1 / 4, margin = 2 / 5, max_retries = 50, min_pixels_per_object = 1\<rparr>
     \<lparr>directions = set_directions (0, 1, 0) (- 1, 0, 0) (0, 0, 1), objects = []\<rparr>
     [0, 1] ''drop''
     [\<lparr>shape = ''sphere'', size_name = ''large'', material = ''rubber'', coords3d = (0, 0,
       1 / 2), rotation = 0, pixel_coords = Some (1, 2, 3), color = ''red''\<rparr>,
      \<lparr>shape = ''sphere'', size_name = ''large'', material = ''rubber'', coords3d = (2, 2,
        1 / 2), rotation = 0, pixel_coords = Some (4, 5, 6), color = ''red''\<rparr>]
     \<lparr>ints = (\<lambda>n. 0), ipos = 0, floats = (\<lambda>n. 0), fpos = 0\<rparr>
   = Some (Inr (Some ([3], [\<lparr>b_name = ''Sphere'', b_scale = 1 / 2, b_xy = (2, 2),
     b_theta = 0, b_material = ''Rubber'', b_rgba = (1, 0, 0, 1)\<rparr>])),
       [\<lparr>shape = ''sphere'', size_name = ''large'', material = ''rubber'', coords3d = (0,
         0, 1 / 2), rotation = 0, pixel_coords = Some (1, 2, 3), color = ''red''\<rparr>,
        \<lparr>shape = ''sphere'', size_name = ''large'', material = ''rubber'', coords3d = (2,
          2, 1 / 2), rotation = 0, pixel_coords = Some (4, 5, 6), color = ''red''\<rparr>,
        \<lparr>shape = ''sphere'', size_name = ''large'', material = ''rubber'', coords3d = (0,
          0, 1 / 2), rotation = 0, pixel_coords = Some (1, 2, 3), color = ''red''\<rparr>,
        \<lparr>shape = ''sphere'', size_name = ''large'', material = ''rubber'', coords3d = (2,
          2, 1 / 2), rotation = 0, pixel_coords = Some (9, 9, 9), color = ''red''\<rparr>],
       \<lparr>ints = (\<lambda>n. 0), ipos = 1, floats = (\<lambda>n. 0), fpos = 0\<rparr>)"
proof -
  have n: "[0 :: nat, 1] \<noteq> []" by simp
  have v: "\<forall>obj \<in> set [0 :: nat, 1]. obj < length [\<lparr>shape = ''sphere'',
    size_name = ''large'', material = ''rubber'', coords3d = (0, 0, 1 / 2), rotation = 0,
      pixel_coords = Some (1, 2, 3), color = ''red''\<rparr>,
      \<lparr>shape = ''sphere'', size_name = ''large'', material = ''rubber'', coords3d = (2, 2,
        1 / 2), rotation = 0, pixel_coords = Some (4, 5, 6), color = ''red''\<rparr>]"
    by simp
  have run: "apply_change \<lparr>fl_add = (+), fl_sub = (-), fl_mul = (*), fl_div = (/),
    fl_sqrt = sqrt\<rparr>
     \<lparr>render_shadeless = (\<lambda>objs g. ([1, 0, 0, 1, 0, 0, 0, 1], g)),
       obj_location = (\<lambda>name r xy theta. (fst xy, snd xy, r)),
         get_camera_coords = (\<lambda>v. (9, 9, 9))\<rparr>
     \<lparr>color_name_to_rgba = [(''red'', (1, 0, 0, 1))], material_mapping = [(''Rubber'',
       ''rubber'')], object_mapping = [(''Sphere'', ''sphere'')], size_mapping = [(''large'',
         1 / 2)], shape_color_combos = None\<rparr>
     \<lparr>min_dist = 1 / 4, margin = 2 / 5, max_retries = 50, min_pixels_per_object = 1\<rparr>
     \<lparr>directions = set_directions (0, 1, 0) (- 1, 0, 0) (0, 0, 1), objects = []\<rparr>
     [0, 1] ''drop''
     [\<lparr>shape = ''sphere'', size_name = ''large'', material = ''rubber'', coords3d = (0, 0,
       1 / 2), rotation = 0, pixel_coords = Some (1, 2, 3), color = ''red''\<rparr>,
      \<lparr>shape = ''sphere'', size_name = ''large'', material = ''rubber'', coords3d = (2, 2,
        1 / 2), rotation = 0, pixel_coords = Some (4, 5, 6), color = ''red''\<rparr>]
     \<lparr>ints = (\<lambda>n. 0), ipos = 0, floats = (\<lambda>n. 0), fpos = 0\<rparr>
   = Some (Inr (Some ([3], [\<lparr>b_name = ''Sphere'', b_scale = 1 / 2, b_xy = (2, 2),
     b_theta = 0, b_material = ''Rubber'', b_rgba = (1, 0, 0, 1)\<rparr>])),
       [\<lparr>shape = ''sphere'', size_name = ''large'', material = ''rubber'', coords3d = (0,
         0, 1 / 2), rotation = 0, pixel_coords = Some (1, 2, 3), color = ''red''\<rparr>,
        \<lparr>shape = ''sphere'', size_name = ''large'', material = ''rubber'', coords3d = (2,
          2, 1 / 2), rotation = 0, pixel_coords = Some (4, 5, 6), color = ''red''\<rparr>,
        \<lparr>shape = ''sphere'', size_name = ''large'', material = ''rubber'', coords3d = (0,
          0, 1 / 2), rotation = 0, pixel_coords = Some (1, 2, 3), color = ''red''\<rparr>,
        \<lparr>shape = ''sphere'', size_name = ''large'', material = ''rubber'', coords3d = (2,
          2, 1 / 2), rotation = 0, pixel_coords = Some (9, 9, 9), color = ''red''\<rparr>],
       \<lparr>ints = (\<lambda>n. 0), ipos = 1, floats = (\<lambda>n. 0), fpos = 0\<rparr>)"
    by (simp add: apply_change_def change_objects_def deepcopy_def render_object_def
          randint_def randbelow_def
          first_key_of_def first_val_of_def dict_get_def cube_adjust_def
          check_visibility_def check_pixels_def Counter_def most_common_def)
  from apply_change_drop [OF n v] run show ?thesis by simp
qed

text \<open>
  A \<^verbatim>\<open>'drop'\<close> on a base of two objects that does not succeed: the image rendered for
  the remaining object shows one colour only, the visibility check fails and the call
  returns the failure triple.
\<close>
theorem apply_change_drop_fails:
  "apply_change \<lparr>fl_add = (+), fl_sub = (-), fl_mul = (*), fl_div = (/),
    fl_sqrt = sqrt\<rparr>
     \<lparr>render_shadeless = (\<lambda>objs g. ([0, 0, 0, 1], g)),
       obj_location = (\<lambda>name r xy theta. (fst xy, snd xy, r)),
         get_camera_coords = (\<lambda>v. (9, 9, 9))\<rparr>
     \<lparr>color_name_to_rgba = [(''red'', (1, 0, 0, 1))], material_mapping = [(''Rubber'',
       ''rubber'')], object_mapping = [(''Sphere'', ''sphere'')], size_mapping = [(''large'',
         1 / 2)], shape_color_combos = None\<rparr>
     \<lparr>min_dist = 1 / 4, margin = 2 / 5, max_retries = 50, min_pixels_per_object = 1\<rparr>
     \<lparr>directions = set_directions (0, 1, 0) (- 1, 0, 0) (0, 0, 1), objects = []\<rparr>
     [0, 1] ''drop''
     [\<lparr>shape = ''sphere'', size_name = ''large'', material = ''rubber'', coords3d = (0, 0,
       1 / 2), rotation = 0, pixel_coords = Some (1, 2, 3), color = ''red''\<rparr>,
      \<lparr>shape = ''sphere'', size_name = ''large'', material = ''rubber'', coords3d = (2, 2,
        1 / 2), rotation = 0, pixel_coords = Some (4, 5, 6), color = ''red''\<rparr>]
     \<lparr>ints = (\<lambda>n. 0), ipos = 0, floats = (\<lambda>n. 0), fpos = 0\<rparr>
   = Some (Inr None,
       [\<lparr>shape = ''sphere'', size_name = ''large'', material = ''rubber'', coords3d = (0,
         0, 1 / 2), rotation = 0, pixel_coords = Some (1, 2, 3), color = ''red''\<rparr>,
        \<lparr>shape = ''sphere'', size_name = ''large'', material = ''rubber'', coords3d = (2,
          2, 1 / 2), rotation = 0, pixel_coords = Some (4, 5, 6), color = ''red''\<rparr>,
        \<lparr>shape = ''sphere'', size_name = ''large'', material = ''rubber'', coords3d = (0,
          0, 1 / 2), rotation = 0, pixel_coords = Some (1, 2, 3), color = ''red''\<rparr>,
        \<lparr>shape = ''sphere'', size_name = ''large'', material = ''rubber'', coords3d = (2,
          2, 1 / 2), rotation = 0, pixel_coords = Some (9, 9, 9), color = ''red''\<rparr>],
       \<lparr>ints = (\<lambda>n. 0), ipos = 1, floats = (\<lambda>n. 0), fpos = 0\<rparr>)"
  by (simp add: apply_change_def change_objects_def deepcopy_def render_object_def
        randint_def randbelow_def
        first_key_of_def first_val_of_def dict_get_def cube_adjust_def
        check_visibility_def check_pixels_def Counter_def most_common_def)

section \<open>Properties of apply_change: the retries of the change type add\<close>

lemma uniform_eq:
  "uniform F a b g =
     (fl_add F (of_int a) (fl_mul F (of_int (b - a)) (floats g (fpos g))),
      g\<lparr>fpos := Suc (fpos g)\<rparr>)"
  by (simp add: uniform_def random_random_def)

text \<open>One round of the placement loop that samples a candidate.\<close>
lemma place_loop_step:
  assumes "num_tries + 1 \<le> max_retries A"
  shows "place_loop F A S r ps num_tries g =
     (case check_dist_margin F A S
             (fst (uniform F (- 3) 3 g),
              fst (uniform F (- 3) 3 (g\<lparr>fpos := fpos g + 1\<rparr>)), r) ps of
        Inl e \<Rightarrow> (Inl e, g\<lparr>fpos := fpos g + 2\<rparr>)
      | Inr good \<Rightarrow>
          if good
          then (Inr (Some (fst (uniform F (- 3) 3 g),
                           fst (uniform F (- 3) 3 (g\<lparr>fpos := fpos g + 1\<rparr>)))),
                g\<lparr>fpos := fpos g + 2\<rparr>)
          else place_loop F A S r ps (num_tries + 1) (g\<lparr>fpos := fpos g + 2\<rparr>))"
  using assms by (subst place_loop.simps) (simp add: uniform_eq split: sum.splits)

lemma place_loop_stop:
  "max_retries A < num_tries + 1 \<Longrightarrow> place_loop F A S r ps num_tries g = (Inr None,
    g)"
  by (subst place_loop.simps) simp

text \<open>
  The loop samples at most \<open>max_retries - num_tries\<close> candidates, two draws of
  \<^verbatim>\<open>random.random()\<close> each, and a position it returns has passed the check.
\<close>
lemma place_loop_count:
  "place_loop F A S r ps num_tries g = (res, g') \<Longrightarrow>
     \<exists>c. c \<le> nat (max_retries A - num_tries)
       \<and> g' = g\<lparr>fpos := fpos g + 2 * c\<rparr>
       \<and> (res = Inr None \<longrightarrow> c = nat (max_retries A - num_tries))
       \<and> (\<forall>xy. res = Inr (Some xy) \<longrightarrow>
             0 < c \<and> check_dist_margin F A S (fst xy, snd xy, r) ps = Inr True)"
proof (induction "nat (max_retries A - num_tries)" arbitrary: num_tries g)
  case 0
  then have "max_retries A < num_tries + 1" by simp
  from place_loop_stop [OF this] 0 show ?case by auto
next
  case (Suc m)
  then have le: "num_tries + 1 \<le> max_retries A" by linarith
  let ?x = "fst (uniform F (- 3) 3 g)"
  let ?y = "fst (uniform F (- 3) 3 (g\<lparr>fpos := fpos g + 1\<rparr>))"
  let ?g2 = "g\<lparr>fpos := fpos g + 2\<rparr>"
  note st = place_loop_step [OF le, of F S r ps g]
  show ?case
  proof (cases "check_dist_margin F A S (?x, ?y, r) ps")
    case (Inl e)
    with st Suc.prems have "res = Inl e" "g' = g\<lparr>fpos := fpos g + 2 * 1\<rparr>" by
      simp_all
    moreover have "(1 :: nat) \<le> nat (max_retries A - num_tries)" using le by simp
    ultimately show ?thesis by blast
  next
    case (Inr good)
    show ?thesis
    proof (cases good)
      case True
      with Inr st Suc.prems have "res = Inr (Some (?x,
        ?y))" "g' = g\<lparr>fpos := fpos g + 2 * 1\<rparr>"
        by simp_all
      moreover have "(1 :: nat) \<le> nat (max_retries A - num_tries)" using le by simp
      moreover have "check_dist_margin F A S (fst (?x, ?y), snd (?x, ?y), r) ps = Inr True"
        using Inr True by simp
      ultimately show ?thesis by (intro exI [of _ 1]) auto
    next
      case False
      with Inr st Suc.prems
      have rec: "place_loop F A S r ps (num_tries + 1) ?g2 = (res, g')" by simp
      have m: "m = nat (max_retries A - (num_tries + 1))" using Suc.hyps(2) by linarith
      from Suc.hyps(1) [OF m rec] obtain c where
        c: "c \<le> nat (max_retries A - (num_tries + 1))"
        and g': "g' = ?g2\<lparr>fpos := fpos ?g2 + 2 * c\<rparr>"
        and n: "res = Inr None \<longrightarrow> c = nat (max_retries A - (num_tries + 1))"
        and s: "\<forall>xy. res = Inr (Some xy) \<longrightarrow>
             0 < c \<and> check_dist_margin F A S (fst xy, snd xy, r) ps = Inr True"
        by blast
      have "Suc c \<le> nat (max_retries A - num_tries)" using c le by linarith
      moreover have "g' = g\<lparr>fpos := fpos g + 2 * Suc c\<rparr>" using g' by simp
      moreover have "res = Inr None \<longrightarrow> Suc c = nat (max_retries A - num_tries)"
        using n le by auto
      moreover have "\<forall>xy. res = Inr (Some xy) \<longrightarrow>
             0 < Suc c \<and> check_dist_margin F A S (fst xy, snd xy, r) ps = Inr True"
        using s by simp
      ultimately show ?thesis by blast
    qed
  qed
qed

text \<open>When every candidate is rejected, the loop gives up after the last one.\<close>
lemma place_loop_exhaust:
  "(\<forall>k < nat (max_retries A - num_tries).
       check_dist_margin F A S
         (fst (uniform F (- 3) 3 (g\<lparr>fpos := fpos g + 2 * k\<rparr>)),
          fst (uniform F (- 3) 3 (g\<lparr>fpos := fpos g + 2 * k + 1\<rparr>)),
            r) ps = Inr False)
   \<Longrightarrow> place_loop F A S r ps num_tries g =
         (Inr None, g\<lparr>fpos := fpos g + 2 * nat (max_retries A - num_tries)\<rparr>)"
proof (induction "nat (max_retries A - num_tries)" arbitrary: num_tries g)
  case 0
  then have "max_retries A < num_tries + 1" by simp
  from place_loop_stop [OF this] 0(1) show ?case by simp
next
  case (Suc m)
  then have le: "num_tries + 1 \<le> max_retries A" by linarith
  let ?g2 = "g\<lparr>fpos := fpos g + 2\<rparr>"
  have m: "m = nat (max_retries A - (num_tries + 1))" using Suc.hyps(2) by linarith
  have pos: "0 < nat (max_retries A - num_tries)" using le by simp
  from Suc.prems pos
  have c0: "check_dist_margin F A S
         (fst (uniform F (- 3) 3 (g\<lparr>fpos := fpos g + 2 * 0\<rparr>)),
          fst (uniform F (- 3) 3 (g\<lparr>fpos := fpos g + 2 * 0 + 1\<rparr>)),
            r) ps = Inr False"
    by blast
  have rest: "\<forall>k < nat (max_retries A - (num_tries + 1)).
       check_dist_margin F A S
         (fst (uniform F (- 3) 3 (?g2\<lparr>fpos := fpos ?g2 + 2 * k\<rparr>)),
          fst (uniform F (- 3) 3 (?g2\<lparr>fpos := fpos ?g2 + 2 * k + 1\<rparr>)), r) ps
         = Inr False"
  proof (intro allI impI)
    fix k assume "k < nat (max_retries A - (num_tries + 1))"
    then have "Suc k < nat (max_retries A - num_tries)" by linarith
    with Suc.prems
    have "check_dist_margin F A S
         (fst (uniform F (- 3) 3 (g\<lparr>fpos := fpos g + 2 * Suc k\<rparr>)),
          fst (uniform F (- 3) 3 (g\<lparr>fpos := fpos g + 2 * Suc k + 1\<rparr>)), r) ps
         = Inr False"
      by blast
    then show "check_dist_margin F A S
         (fst (uniform F (- 3) 3 (?g2\<lparr>fpos := fpos ?g2 + 2 * k\<rparr>)),
          fst (uniform F (- 3) 3 (?g2\<lparr>fpos := fpos ?g2 + 2 * k + 1\<rparr>)), r) ps
         = Inr False"
      by (simp add: add.commute add.left_commute)
  qed
  from Suc.hyps(1) [OF m rest]
  have "place_loop F A S r ps (num_tries + 1) ?g2 =
         (Inr None,
           ?g2\<lparr>fpos := fpos ?g2 + 2 * nat (max_retries A - (num_tries + 1))\<rparr>)" .
  moreover have "fpos g + 2 + 2 * nat (max_retries A - (num_tries + 1))
                   = fpos g + 2 * nat (max_retries A - num_tries)"
    using le by linarith
  ultimately have "place_loop F A S r ps (num_tries + 1) ?g2 =
         (Inr None, g\<lparr>fpos := fpos g + 2 * nat (max_retries A - num_tries)\<rparr>)"
    by simp
  with c0 place_loop_step [OF le, of F S r ps g] show ?case by simp
qed


lemma choice_fpos: "choice xs g = (r, g') \<Longrightarrow> fpos g' = fpos g"
  by (auto simp: choice_def randbelow_def split: if_splits)

lemma choose_shape_color_fpos: "choose_shape_color P g = (r,
  g') \<Longrightarrow> fpos g' = fpos g"
  by (auto simp: choose_shape_color_def bind_def ret_def lift_def
           split: option.splits prod.splits sum.splits dest!: choice_fpos)

text \<open>Lines 915-933: shape, colour, rotation and material of the new object.\<close>
lemma new_object_draws:
  assumes "bind (choose_shape_color P) (\<lambda>sc.
             bind (random_theta F) (\<lambda>new_theta.
             bind (choice (material_mapping P)) (\<lambda>new_mat.
             ret (sc, new_theta, new_mat)))) g = (r, g')"
  shows "(fpos g' = fpos g \<or> fpos g' = fpos g + 1) \<and> ((\<exists>v. r = Inr v)
    \<longrightarrow> fpos g' = fpos g + 1)"
proof -
  obtain r1 g1 where c1: "choose_shape_color P g = (r1, g1)"
    by (cases "choose_shape_color P g")
  note f1 = choose_shape_color_fpos [OF c1]
  show ?thesis
  proof (cases r1)
    case (Inl e)
    with assms c1 f1 show ?thesis by (auto simp: bind_def)
  next
    case (Inr sc)
    obtain r3 g3 where c3: "choice (material_mapping P) (g1\<lparr>fpos := Suc (fpos g1)\<rparr>)
      = (r3, g3)"
      by (cases "choice (material_mapping P) (g1\<lparr>fpos := Suc (fpos g1)\<rparr>)")
    from choice_fpos [OF c3] have f3: "fpos g3 = Suc (fpos g1)" by simp
    from assms c1 Inr c3 have "g' = g3"
      by (cases r3) (auto simp: bind_def ret_def random_theta_def random_random_def)
    with f1 f3 show ?thesis by simp
  qed
qed

lemma add_branch_count:
  "\<exists>r h1 g1 c.
      add_branch F P A S default_objects h g = (r, h1, g1)
    \<and> c \<le> nat (max_retries A)
    \<and> (fpos g1 = fpos g + 2 * c \<or> fpos g1 = fpos g + 2 * c + 1)
    \<and> (\<forall>new_objects. r = Inr (Some new_objects) \<longrightarrow> 0 < c)
    \<and> (r = Inr None \<longrightarrow> c = nat (max_retries A))"
proof -
  obtain rs g0 where cs: "choice (size_mapping P) g = (rs, g0)"
    by (cases "choice (size_mapping P) g")
  note f0 = choice_fpos [OF cs]
  show ?thesis
  proof (cases rs)
    case (Inl e)
    with cs have "add_branch F P A S default_objects h g = (Inl e, h, g0)"
      by (simp add: add_branch_def)
    with f0 show ?thesis
      by (intro exI [of _ "Inl e"] exI [of _ h] exI [of _ g0] exI [of _ 0]) simp
  next
    case (Inr new_size)
    note sz = this
    obtain ra h1 where al: "add_loop F P default_objects [] [] h = (ra, h1)"
      by (cases "add_loop F P default_objects [] [] h")
    show ?thesis
    proof (cases ra)
      case (Inl e)
      with cs sz al have "add_branch F P A S default_objects h g = (Inl e, h1, g0)"
        by (simp add: add_branch_def)
      with f0 show ?thesis
        by (intro exI [of _ "Inl e"] exI [of _ h1] exI [of _ g0] exI [of _ 0]) simp
    next
      case (Inr pc)
      obtain ops copies where pc: "pc = (ops, copies)" by (cases pc)
      obtain rp gp where pl: "place_loop F A S (snd new_size) ops 0 g0 = (rp, gp)"
        by (cases "place_loop F A S (snd new_size) ops 0 g0")
      from place_loop_count [OF pl] obtain c where
        c: "c \<le> nat (max_retries A)" and gp: "gp = g0\<lparr>fpos := fpos g0 + 2 * c\<rparr>"
        and n: "rp = Inr None \<longrightarrow> c = nat (max_retries A)"
        and s: "\<forall>xy. rp = Inr (Some xy) \<longrightarrow> 0 < c"
        by auto
      from gp f0 have fp: "fpos gp = fpos g + 2 * c" by simp
      show ?thesis
      proof (cases rp)
        case (Inl e)
        with cs sz al Inr pc pl
        have "add_branch F P A S default_objects h g = (Inl e, h1, gp)"
          by (simp add: add_branch_def)
        with c fp show ?thesis
          by (intro exI [of _ "Inl e"] exI [of _ h1] exI [of _ gp] exI [of _ c]) simp
      next
        case (Inr found)
        note rp = this
        show ?thesis
        proof (cases found)
          case None
          with cs sz al \<open>ra = Inr pc\<close> pc pl rp
          have "add_branch F P A S default_objects h g = (Inr None, h1, gp)"
            by (simp add: add_branch_def)
          with c fp n rp None show ?thesis
            by (intro exI [of _ "Inr None"] exI [of _ h1] exI [of _ gp] exI [of _ c]) simp
        next
          case (Some xy)
          obtain new_x new_y where xy: "xy = (new_x, new_y)" by (cases xy)
          from s rp Some have cpos: "0 < c" by simp
          obtain rt g2 where t: "bind (choose_shape_color P) (\<lambda>sc.
             bind (random_theta F) (\<lambda>new_theta.
             bind (choice (material_mapping P)) (\<lambda>new_mat.
             ret (sc, new_theta, new_mat)))) gp = (rt, g2)"
            by (cases "bind (choose_shape_color P) (\<lambda>sc.
             bind (random_theta F) (\<lambda>new_theta.
             bind (choice (material_mapping P)) (\<lambda>new_mat.
             ret (sc, new_theta, new_mat)))) gp")
          from new_object_draws [OF t] fp
          have f2: "fpos g2 = fpos g + 2 * c \<or> fpos g2 = fpos g + 2 * c + 1" by auto
          from cs sz al \<open>ra = Inr pc\<close> pc pl rp Some xy t
          obtain r hh where ab: "add_branch F P A S default_objects h g = (r, hh, g2)"
            and nn: "r \<noteq> Inr None"
            by (cases rt) (auto simp: add_branch_def new_dict_def split: prod.splits)
          with c f2 cpos show ?thesis
            by (intro exI [of _ r] exI [of _ hh] exI [of _ g2] exI [of _ c]) simp
        qed
      qed
    qed
  qed
qed

lemma add_branch_exhaust:
  assumes "choice (size_mapping P) g = (Inr (new_size_name, new_r), g0)"
    and "add_loop F P default_objects [] [] h = (Inr (other_positions, copies), h0)"
    and "\<forall>k < nat (max_retries A).
           check_dist_margin F A S
             (fst (uniform F (- 3) 3 (g0\<lparr>fpos := fpos g0 + 2 * k\<rparr>)),
              fst (uniform F (- 3) 3 (g0\<lparr>fpos := fpos g0 + 2 * k + 1\<rparr>)), new_r)
             other_positions = Inr False"
  shows "add_branch F P A S default_objects h g =
           (Inr None, h0, g0\<lparr>fpos := fpos g0 + 2 * nat (max_retries A)\<rparr>)"
proof -
  from assms(3) have "\<forall>k < nat (max_retries A - 0).
           check_dist_margin F A S
             (fst (uniform F (- 3) 3 (g0\<lparr>fpos := fpos g0 + 2 * k\<rparr>)),
              fst (uniform F (- 3) 3 (g0\<lparr>fpos := fpos g0 + 2 * k + 1\<rparr>)), new_r)
             other_positions = Inr False"
    by simp
  from place_loop_exhaust [OF this]
  have "place_loop F A S new_r other_positions 0 g0 =
          (Inr None, g0\<lparr>fpos := fpos g0 + 2 * nat (max_retries A)\<rparr>)"
    by simp
  with assms(1,2) show ?thesis by (simp add: add_branch_def)
qed


text \<open>
  C8. The \<^verbatim>\<open>'add'\<close> branch samples a number \<open>c\<close> of candidate positions that is at most
  \<^verbatim>\<open>max_retries\<close>: each candidate costs two draws of \<^verbatim>\<open>random.random()\<close>, and the
  branch makes one more draw, for the rotation, only after a candidate was accepted. It
  builds an object list only if it has sampled a candidate. When it gives up it has
  sampled \<^verbatim>\<open>max_retries\<close> candidates and \<^verbatim>\<open>apply_change\<close> returns the failure triple; it
  gives up whenever the size is drawn, the positions of the base objects are found and
  each of the \<^verbatim>\<open>max_retries\<close> candidates fails the distance and margin check against
  them. With \<^verbatim>\<open>max_retries\<close> zero (or negative) no candidate is sampled and the call
  returns no object list.
\<close>
theorem apply_change_add_retries:
  "\<exists>r h1 g1 c.
      change_objects F P A S default_objects ''add'' h g = Some (r, h1, g1)
    \<and> c \<le> nat (max_retries A)
    \<and> (fpos g1 = fpos g + 2 * c \<or> fpos g1 = fpos g + 2 * c + 1)
    \<and> (\<forall>new_objects. r = Inr (Some new_objects) \<longrightarrow> 0 < c)
    \<and> (r = Inr None \<longrightarrow>
          c = nat (max_retries A)
          \<and> apply_change F E P A S default_objects ''add'' h g = Some (Inr None, h1, g1))
    \<and> ((\<exists>new_size_name new_r g0 other_positions copies h0.
            choice (size_mapping P) g = (Inr (new_size_name, new_r), g0)
            \<and> add_loop F P default_objects [] [] h = (Inr (other_positions, copies), h0)
            \<and> (\<forall>k < nat (max_retries A).
                  check_dist_margin F A S
                    (fst (uniform F (- 3) 3 (g0\<lparr>fpos := fpos g0 + 2 * k\<rparr>)),
                     fst (uniform F (- 3) 3 (g0\<lparr>fpos := fpos g0 + 2 * k + 1\<rparr>)),
                       new_r)
                    other_positions = Inr False))
          \<longrightarrow> r = Inr None)
    \<and> (max_retries A \<le> 0 \<longrightarrow>
          fpos g1 = fpos g
          \<and> (\<exists>res. apply_change F E P A S default_objects ''add'' h g = Some (res,
            h1, g1)
                \<and> (\<forall>x. res \<noteq> Inr (Some x))))"
proof -
  from add_branch_count [of F P A S default_objects h g] obtain r h1 g1 c where
    ab: "add_branch F P A S default_objects h g = (r, h1, g1)"
    and c: "c \<le> nat (max_retries A)"
    and f: "fpos g1 = fpos g + 2 * c \<or> fpos g1 = fpos g + 2 * c + 1"
    and s: "\<forall>new_objects. r = Inr (Some new_objects) \<longrightarrow> 0 < c"
    and n: "r = Inr None \<longrightarrow> c = nat (max_retries A)"
    by blast
  have co: "change_objects F P A S default_objects ''add'' h g = Some (r, h1, g1)"
    by (simp add: change_objects_def ab)
  have fail: "apply_change F E P A S default_objects ''add'' h g = Some (Inr None, h1, g1)"
    if "r = Inr None"
    using that by (simp add: apply_change_def co)
  have ex: "r = Inr None"
    if "\<exists>new_size_name new_r g0 other_positions copies h0.
            choice (size_mapping P) g = (Inr (new_size_name, new_r), g0)
            \<and> add_loop F P default_objects [] [] h = (Inr (other_positions, copies), h0)
            \<and> (\<forall>k < nat (max_retries A).
                  check_dist_margin F A S
                    (fst (uniform F (- 3) 3 (g0\<lparr>fpos := fpos g0 + 2 * k\<rparr>)),
                     fst (uniform F (- 3) 3 (g0\<lparr>fpos := fpos g0 + 2 * k + 1\<rparr>)),
                       new_r)
                    other_positions = Inr False)"
  proof -
    from that obtain new_size_name new_r g0 other_positions copies h0 where
      "choice (size_mapping P) g = (Inr (new_size_name, new_r), g0)"
      "add_loop F P default_objects [] [] h = (Inr (other_positions, copies), h0)"
      "\<forall>k < nat (max_retries A).
                  check_dist_margin F A S
                    (fst (uniform F (- 3) 3 (g0\<lparr>fpos := fpos g0 + 2 * k\<rparr>)),
                     fst (uniform F (- 3) 3 (g0\<lparr>fpos := fpos g0 + 2 * k + 1\<rparr>)),
                       new_r)
                    other_positions = Inr False"
      by blast
    from add_branch_exhaust [OF this] ab show ?thesis by simp
  qed
  have zero: "fpos g1 = fpos g
          \<and> (\<exists>res. apply_change F E P A S default_objects ''add'' h g = Some (res,
            h1, g1)
                \<and> (\<forall>x. res \<noteq> Inr (Some x)))"
    if "max_retries A \<le> 0"
  proof -
    from that c have c0: "c = 0" by simp
    with s have ns: "\<forall>new_objects. r \<noteq> Inr (Some new_objects)" by auto
    have fp: "fpos g1 = fpos g"
    proof (cases "r = Inr None")
      case True
      with ab that show ?thesis
        using add_branch_count [of F P A S default_objects h g] f c0 n
        by (auto simp: add_branch_def choice_fpos place_loop_stop
                 split: prod.splits sum.splits option.splits dest: choice_fpos)
    next
      case False
      with ns ab that show ?thesis
        by (auto simp: add_branch_def place_loop_stop
                 split: prod.splits sum.splits option.splits dest: choice_fpos)
    qed
    have "\<exists>res. apply_change F E P A S default_objects ''add'' h g = Some (res, h1, g1)
                \<and> (\<forall>x. res \<noteq> Inr (Some x))"
    proof (cases r)
      case (Inl e)
      then show ?thesis by (simp add: apply_change_def co)
    next
      case (Inr v)
      with ns have "r = Inr None" by (cases v) auto
      then show ?thesis by (simp add: apply_change_def co)
    qed
    with fp show ?thesis by simp
  qed
  from co c f s n fail ex zero show ?thesis by blast
qed

theorem apply_change_add_retries_witness:
  "apply_change \<lparr>fl_add = (+), fl_sub = (-), fl_mul = (*), fl_div = (/),
    fl_sqrt = sqrt\<rparr>
     \<lparr>render_shadeless = (\<lambda>objs g. ([1, 0, 0, 1, 0, 0, 0, 1], g)),
       obj_location = (\<lambda>name r xy theta. (fst xy, snd xy, r)),
         get_camera_coords = (\<lambda>v. (9, 9, 9))\<rparr>
     \<lparr>color_name_to_rgba = [(''red'', (1, 0, 0, 1))], material_mapping = [(''Rubber'',
       ''rubber'')], object_mapping = [(''Sphere'', ''sphere'')], size_mapping = [(''large'',
         1 / 2)], shape_color_combos = None\<rparr>
     \<lparr>min_dist = 1 / 4, margin = 2 / 5, max_retries = 2, min_pixels_per_object = 1\<rparr>
     \<lparr>directions = set_directions (0, 1, 0) (- 1, 0, 0) (0, 0, 1), objects = []\<rparr>
     [0] ''add''
     [\<lparr>shape = ''sphere'', size_name = ''large'', material = ''rubber'', coords3d = (0, 0,
       1 / 2), rotation = 0, pixel_coords = Some (1, 2, 3), color = ''red''\<rparr>]
     \<lparr>ints = (\<lambda>n. 0), ipos = 0, floats = (\<lambda>n. 1 / 2), fpos = 0\<rparr>
   = Some (Inr None,
       [\<lparr>shape = ''sphere'', size_name = ''large'', material = ''rubber'', coords3d = (0,
         0, 1 / 2), rotation = 0, pixel_coords = Some (1, 2, 3), color = ''red''\<rparr>,
        \<lparr>shape = ''sphere'', size_name = ''large'', material = ''rubber'', coords3d = (0,
          0, 1 / 2), rotation = 0, pixel_coords = Some (1, 2, 3), color = ''red''\<rparr>],
       \<lparr>ints = (\<lambda>n. 0), ipos = 1, floats = (\<lambda>n. 1 / 2), fpos = 4\<rparr>)"
proof -
  have run: "apply_change \<lparr>fl_add = (+), fl_sub = (-), fl_mul = (*), fl_div = (/),
    fl_sqrt = sqrt\<rparr>
     \<lparr>render_shadeless = (\<lambda>objs g. ([1, 0, 0, 1, 0, 0, 0, 1], g)),
       obj_location = (\<lambda>name r xy theta. (fst xy, snd xy, r)),
         get_camera_coords = (\<lambda>v. (9, 9, 9))\<rparr>
     \<lparr>color_name_to_rgba = [(''red'', (1, 0, 0, 1))], material_mapping = [(''Rubber'',
       ''rubber'')], object_mapping = [(''Sphere'', ''sphere'')], size_mapping = [(''large'',
         1 / 2)], shape_color_combos = None\<rparr>
     \<lparr>min_dist = 1 / 4, margin = 2 / 5, max_retries = 2, min_pixels_per_object = 1\<rparr>
     \<lparr>directions = set_directions (0, 1, 0) (- 1, 0, 0) (0, 0, 1), objects = []\<rparr>
     [0] ''add''
     [\<lparr>shape = ''sphere'', size_name = ''large'', material = ''rubber'', coords3d = (0, 0,
       1 / 2), rotation = 0, pixel_coords = Some (1, 2, 3), color = ''red''\<rparr>]
     \<lparr>ints = (\<lambda>n. 0), ipos = 0, floats = (\<lambda>n. 1 / 2), fpos = 0\<rparr>
   = Some (Inr None,
       [\<lparr>shape = ''sphere'', size_name = ''large'', material = ''rubber'', coords3d = (0,
         0, 1 / 2), rotation = 0, pixel_coords = Some (1, 2, 3), color = ''red''\<rparr>,
        \<lparr>shape = ''sphere'', size_name = ''large'', material = ''rubber'', coords3d = (0,
          0, 1 / 2), rotation = 0, pixel_coords = Some (1, 2, 3), color = ''red''\<rparr>],
       \<lparr>ints = (\<lambda>n. 0), ipos = 1, floats = (\<lambda>n. 1 / 2), fpos = 4\<rparr>)"
    by (simp add: apply_change_def change_objects_def add_branch_def deepcopy_def
          choice_def randbelow_def first_key_of_def first_val_of_def cube_adjust_def
          place_loop_step place_loop_stop uniform_eq)
  from apply_change_add_retries
    [where F = "\<lparr>fl_add = (+), fl_sub = (-), fl_mul = (*), fl_div = (/),
      fl_sqrt = sqrt\<rparr>"
       and P = "\<lparr>color_name_to_rgba = [(''red'', (1, 0, 0, 1))],
         material_mapping = [(''Rubber'', ''rubber'')], object_mapping = [(''Sphere'',
           ''sphere'')], size_mapping = [(''large'', 1 / 2)], shape_color_combos = None\<rparr>"
       and A = "\<lparr>min_dist = 1 / 4, margin = 2 / 5, max_retries = 2,
         min_pixels_per_object = 1\<rparr>"
       and S = "\<lparr>directions = set_directions (0, 1, 0) (- 1, 0, 0) (0, 0, 1),
         objects = []\<rparr>"
       and default_objects = "[0]"
       and h = "[\<lparr>shape = ''sphere'', size_name = ''large'', material = ''rubber'',
         coords3d = (0, 0, 1 / 2), rotation = 0, pixel_coords = Some (1, 2, 3),
           color = ''red''\<rparr>]"
       and g = "\<lparr>ints = (\<lambda>n. 0), ipos = 0, floats = (\<lambda>n. 1 / 2),
         fpos = 0\<rparr>"
       and E = "\<lparr>render_shadeless = (\<lambda>objs g. ([1, 0, 0, 1, 0, 0, 0, 1], g)),
         obj_location = (\<lambda>name r xy theta. (fst xy, snd xy, r)),
           get_camera_coords = (\<lambda>v. (9, 9, 9))\<rparr>"]
    run
  show ?thesis by simp
qed

section \<open>Properties of add_random_objects: the restart\<close>








end
